theory Spec2Isabelle
  imports Main "HOL-Library.Sublist"
begin

section \<open>JavaScript strings\<close>

text \<open>
  A string is a list of code units; the model covers the code units below 256.
  The functions of this section are the built-in string methods that
  \<^verbatim>\<open>scrape.mjs\<close> calls.
\<close>

text \<open>\<^verbatim>\<open>s.includes(t)\<close>: \<open>t\<close> occurs in \<open>s\<close> as a contiguous run.\<close>

fun js_includes :: "string \<Rightarrow> string \<Rightarrow> bool" where
  "js_includes [] t = (t = [])"
| "js_includes (c # cs) t = (prefix t (c # cs) \<or> js_includes cs t)"

text \<open>White space as \<^verbatim>\<open>trim()\<close> sees it: TAB, LF, VT, FF, CR, SP, NBSP.\<close>

definition js_space :: "char \<Rightarrow> bool" where
  "js_space c = (c \<in> {CHR 0x09, CHR 0x0A, CHR 0x0B, CHR 0x0C, CHR 0x0D, CHR 0x20, CHR 0xA0})"

definition trim :: "string \<Rightarrow> string" where
  "trim s = rev (dropWhile js_space (rev (dropWhile js_space s)))"

text \<open>\<^verbatim>\<open>toLowerCase()\<close> on the letters below 256: A-Z and the accented capitals.\<close>

definition js_lower :: "char \<Rightarrow> char" where
  "js_lower c =
     (let n = (of_char c :: nat)
      in if (65 \<le> n \<and> n \<le> 90) \<or> (192 \<le> n \<and> n \<le> 222 \<and> n \<noteq> 215)
         then char_of (n + 32) else c)"

definition toLowerCase :: "string \<Rightarrow> string" where
  "toLowerCase s = map js_lower s"

text \<open>\<^verbatim>\<open>s.split(d)\<close> for a one-character separator; the result is never empty.\<close>

fun split_on :: "char \<Rightarrow> string \<Rightarrow> string list" where
  "split_on d [] = [[]]"
| "split_on d (c # cs) =
     (if c = d then [] # split_on d cs
      else (case split_on d cs of
              w # ws \<Rightarrow> (c # w) # ws
            | [] \<Rightarrow> [[c]]))"

text \<open>\<^verbatim>\<open>xs.pop()\<close> on the array a split returns: its last element.\<close>

definition pop :: "string list \<Rightarrow> string" where
  "pop xs = last xs"

text \<open>\<^verbatim>\<open>xs.join(sep)\<close>.\<close>

fun join :: "string \<Rightarrow> string list \<Rightarrow> string" where
  "join sep [] = []"
| "join sep [x] = x"
| "join sep (x # y # ys) = x @ sep @ join sep (y # ys)"

text \<open>\<^verbatim>\<open>a || b\<close> on strings, where an absent value counts as the empty string.\<close>

definition str_or :: "string \<Rightarrow> string \<Rightarrow> string" where
  "str_or a b = (if a \<noteq> [] then a else b)"

section \<open>JSON values as JavaScript sees them\<close>

text \<open>
  What \<^verbatim>\<open>JSON.parse\<close> returns. A number is carried by the text that
  \<^verbatim>\<open>String(n)\<close> prints for it (zero prints as \<^verbatim>\<open>0\<close>): the extractor only
  tests a number from a JSON-LD block for truth and prints it. An object is the
  list of its members. \<^verbatim>\<open>undefined\<close> is \<open>None\<close> of \<open>json option\<close>.
\<close>

datatype json =
    JNull
  | JBool bool
  | JNum string
  | JStr string
  | JArr "json list"
  | JObj "(string \<times> json) list"

fun truthy :: "json \<Rightarrow> bool" where
  "truthy JNull = False"
| "truthy (JBool b) = b"
| "truthy (JNum s) = (s \<noteq> ''0'')"
| "truthy (JStr s) = (s \<noteq> [])"
| "truthy (JArr xs) = True"
| "truthy (JObj kvs) = True"

text \<open>
  \<^verbatim>\<open>v.k\<close> on a value that is not \<^verbatim>\<open>null\<close>, for the keys the extractor reads
  (none of them is a built-in property of strings, numbers or arrays). On
  \<^verbatim>\<open>null\<close> the access throws; the callers test for that first.
\<close>

fun js_get :: "json \<Rightarrow> string \<Rightarrow> json option" where
  "js_get (JObj kvs) k = map_of kvs k"
| "js_get _ k = None"

text \<open>\<^verbatim>\<open>v || d\<close>.\<close>

definition or_else :: "json option \<Rightarrow> json \<Rightarrow> json" where
  "or_else v d = (case v of Some x \<Rightarrow> if truthy x then x else d | None \<Rightarrow> d)"

text \<open>
  \<^verbatim>\<open>String(v)\<close>, and the conversion that an assignment to \<^verbatim>\<open>innerHTML\<close>
  makes. It throws a \<^verbatim>\<open>TypeError\<close> for an object with a member \<^verbatim>\<open>toString\<close> of
  its own (no value of a JSON text can be called, and \<^verbatim>\<open>valueOf\<close> gives no
  primitive), also when such an object is an element of an array that is printed.
\<close>

fun unprintable :: "json \<Rightarrow> bool" where
  "unprintable (JObj kvs) = (map_of kvs ''toString'' \<noteq> None)"
| "unprintable (JArr xs) = (\<exists>x\<in>set xs. unprintable x)"
| "unprintable v = False"

text \<open>
  The text the conversion gives where it does not throw: an array prints its
  elements joined by commas, \<^verbatim>\<open>null\<close> inside an array as nothing; an object
  prints as \<^verbatim>\<open>[object Object]\<close>. The callers test \<open>unprintable\<close> first.
\<close>

fun to_string :: "json \<Rightarrow> string" where
  "to_string JNull = ''null''"
| "to_string (JBool b) = (if b then ''true'' else ''false'')"
| "to_string (JNum s) = s"
| "to_string (JStr s) = s"
| "to_string (JArr xs) = join '','' (map (\<lambda>x. if x = JNull then [] else to_string x) xs)"
| "to_string (JObj kvs) = ''[object Object]''"

section \<open>Errors\<close>

text \<open>
  What the code throws: a sitemap that cannot be fetched and a rejected promise
  of a batch (a tab that cannot be opened or closed) escape to the handler
  around \<^verbatim>\<open>main\<close>; a property read on \<^verbatim>\<open>null\<close> inside a JSON-LD block is
  swallowed by the \<^verbatim>\<open>try\<close> around that block.
\<close>

datatype error = FetchFailed string | PageRejected string | TypeError

section \<open>Sitemap discovery\<close>

text \<open>
  The loop \<^verbatim>\<open>while ((m = re.exec(xml))) locs.push(m[1])\<close> with
  \<^verbatim>\<open>re = /<loc>([^<]+)<\/loc>/g\<close>. A match starts at the leftmost \<^verbatim>\<open><loc>\<close>
  that is followed by a non-empty run without \<^verbatim>\<open><\<close> and then \<^verbatim>\<open></loc>\<close>; the
  search resumes behind the match. Where the attempt at a position fails, the
  next position is tried.
\<close>

function extract_locs :: "string \<Rightarrow> string list" where
  "extract_locs [] = []"
| "extract_locs (c # cs) =
     (if prefix ''<loc>'' (c # cs) then
        (let body = drop 5 (c # cs);
             run = takeWhile (\<lambda>x. x \<noteq> CHR ''<'') body;
             rest = dropWhile (\<lambda>x. x \<noteq> CHR ''<'') body
         in if run \<noteq> [] \<and> prefix ''</loc>'' rest
            then run # extract_locs (drop 6 rest)
            else extract_locs cs)
      else extract_locs cs)"
  by pat_completeness auto
termination
proof (relation "measure length")
  show "wf (measure length)" by simp
next
  fix c :: char and cs body run rest
  assume "body = drop 5 (c # cs)" and "rest = dropWhile (\<lambda>x. x \<noteq> CHR ''<'') body"
  then have "length rest \<le> length (c # cs)"
    using length_dropWhile_le [of "\<lambda>x. x \<noteq> CHR ''<''" body] by simp
  then show "(drop 6 rest, c # cs) \<in> measure length" by simp
qed simp_all

text \<open>
  \<^verbatim>\<open>new Set()\<close> with \<^verbatim>\<open>add\<close>: the elements in insertion order, an element
  already present is not inserted again. \<^verbatim>\<open>Array.from\<close> reads that order.
\<close>

definition set_add :: "string list \<Rightarrow> string \<Rightarrow> string list" where
  "set_add s u = (if u \<in> set s then s else s @ [u])"

text \<open>
  The base address and the root sitemap address:
  \<^verbatim>\<open>(base.replace(/\/+$/, '') + '/sitemap.xml').trim()\<close>.
\<close>

definition strip_trailing_slashes :: "string \<Rightarrow> string" where
  "strip_trailing_slashes s = rev (dropWhile (\<lambda>c. c = CHR ''/'') (rev s))"

definition sitemap_url :: "string \<Rightarrow> string" where
  "sitemap_url url =
     (let base = trim (if url = [] then ''https://thepihut.com'' else url)
      in trim (strip_trailing_slashes base @ ''/sitemap.xml''))"

text \<open>
  The candidate sub-sitemaps: the locations that mention \<^verbatim>\<open>sitemap_products\<close>, or
  every location when none does.
\<close>

definition product_sitemaps :: "string list \<Rightarrow> string list" where
  "product_sitemaps locs =
     (let ps = filter (\<lambda>l. js_includes l ''sitemap_products'') locs
      in if length ps = 0 then locs else ps)"

text \<open>The inner loop: every location with \<^verbatim>\<open>/products/\<close> goes into the set.\<close>

fun add_products :: "string list \<Rightarrow> string list \<Rightarrow> string list" where
  "add_products s [] = s"
| "add_products s (u # us) =
     add_products (if js_includes u ''/products/'' then set_add s u else s) us"

text \<open>
  The outer loop over the candidates. \<open>fetch\<close> is the browser: the text of the
  document at an address, or \<open>None\<close> when \<^verbatim>\<open>page.goto\<close> or \<^verbatim>\<open>r.text()\<close> throws;
  nothing catches that here, so discovery stops with the error.
\<close>

fun collect_products ::
  "(string \<Rightarrow> string option) \<Rightarrow> string list \<Rightarrow> string list \<Rightarrow> error + string list" where
  "collect_products fetch s [] = Inr s"
| "collect_products fetch s (sm # sms) =
     (case fetch sm of
        None \<Rightarrow> Inl (FetchFailed sm)
      | Some x \<Rightarrow> collect_products fetch (add_products s (extract_locs x)) sms)"

text \<open>
  \<^verbatim>\<open>Array.from(productUrlsSet).filter(u => u && u.trim() !== '')\<close>, after the
  fetch of the root sitemap.
\<close>

definition discover :: "(string \<Rightarrow> string option) \<Rightarrow> string \<Rightarrow> error + string list" where
  "discover fetch url =
     (case fetch (sitemap_url url) of
        None \<Rightarrow> Inl (FetchFailed (sitemap_url url))
      | Some xml \<Rightarrow>
          (case collect_products fetch [] (product_sitemaps (extract_locs xml)) of
             Inl e \<Rightarrow> Inl e
           | Inr s \<Rightarrow> Inr (filter (\<lambda>u. u \<noteq> [] \<and> trim u \<noteq> []) s)))"

section \<open>Limit and batches\<close>

text \<open>
  \<^verbatim>\<open>maxProducts > 0 ? Math.min(maxProducts, productUrls.length) : productUrls.length\<close>;
  \<open>maxProducts\<close> is what \<^verbatim>\<open>parseInt(..., 10) || 0\<close> gave, an integer of either sign.
\<close>

definition limit_of :: "int \<Rightarrow> nat \<Rightarrow> nat" where
  "limit_of maxProducts n = (if maxProducts > 0 then min (nat maxProducts) n else n)"

definition BATCH_SIZE :: nat where
  "BATCH_SIZE = 10"

text \<open>\<^verbatim>\<open>xs.slice(a, b)\<close> for indices that are not negative.\<close>

definition slice :: "nat \<Rightarrow> nat \<Rightarrow> 'a list \<Rightarrow> 'a list" where
  "slice a b xs = take (b - a) (drop a xs)"

text \<open>
  The batches the loop \<^verbatim>\<open>for (let i = 0; i < limit; i += BATCH_SIZE)\<close> cuts:
  \<^verbatim>\<open>productUrls.slice(i, Math.min(i + BATCH_SIZE, limit))\<close>.
\<close>

function batches_from :: "nat \<Rightarrow> nat \<Rightarrow> 'a list \<Rightarrow> 'a list list" where
  "batches_from i limit urls =
     (if i < limit
      then slice i (min (i + BATCH_SIZE) limit) urls # batches_from (i + BATCH_SIZE) limit urls
      else [])"
  by pat_completeness auto
termination
  by (relation "measure (\<lambda>(i, limit, urls). limit - i)") (auto simp: BATCH_SIZE_def)

declare batches_from.simps [simp del]

section \<open>The loaded page\<close>

text \<open>
  The function handed to \<^verbatim>\<open>p.evaluate\<close> reads the document through a fixed set of
  queries. A page is the answers to them.
\<close>

record element =
  textContent :: string
  content_attr :: "string option"

text \<open>
  The product object of the shop platform, \<^verbatim>\<open>window.meta?.product ||
  window.ShopifyAnalytics?.meta?.product\<close>. A text field that is absent, \<^verbatim>\<open>null\<close>
  or empty is the empty string (the code reads these fields through \<^verbatim>\<open>||\<close> or a
  truth test only); \<open>v_price\<close> is the price in minor units, an integer that a
  double holds exactly and that is below \<open>100 * 2^52\<close> in absolute value, \<open>None\<close>
  when absent.
\<close>

record variant =
  v_name :: string
  v_sku :: string
  v_price :: "int option"

record shopify_product =
  sp_type :: string
  sp_handle :: string
  sp_variants :: "variant list"

text \<open>
  \<open>ld_json\<close>: for each non-empty \<^verbatim>\<open>script[type="application/ld+json"]\<close>, in
  document order, what \<^verbatim>\<open>JSON.parse\<close> returns, \<open>None\<close> where it throws.
  \<open>decode_entities\<close>: the text a \<^verbatim>\<open>textarea\<close> holds after \<^verbatim>\<open>innerHTML\<close> is set.
  \<open>querySelector\<close>: the first element that matches a selector.
  The last four fields are the matches of the patterns on
  \<^verbatim>\<open>document.body.innerText\<close>: the group captured by \<^verbatim>\<open>/Stock:\s*([^\n]+)/i\<close>, by
  \<^verbatim>\<open>/Availability:\s*([^\n]+)/i\<close> and by \<^verbatim>\<open>/SKU:\s*([^\n]+)/\<close>, and whether
  \<^verbatim>\<open>/Only \d+ units left/i\<close> matches.
\<close>

record page =
  ld_json :: "json option list"
  shopify_meta :: "shopify_product option"
  title :: string
  decode_entities :: "string \<Rightarrow> string"
  querySelector :: "string \<Rightarrow> element option"
  stock_match :: "string option"
  availability_match :: "string option"
  units_left_match :: bool
  sku_match :: "string option"

section \<open>The product record\<close>

text \<open>
  The object \<^verbatim>\<open>{ name, sku, price, availability }\<close>. Three fields are always
  strings; \<open>price\<close> holds whatever the JSON-LD offer gave, or a string.
\<close>

record extracted =
  name :: string
  sku :: string
  price :: json
  availability :: string

text \<open>
  \<^verbatim>\<open>function decodeHtml(html) { if (!html) return ''; ... }\<close>: assigning to
  \<^verbatim>\<open>innerHTML\<close> converts the value to a string, which throws for an
  \<open>unprintable\<close> value; the callers test for that first.
\<close>

definition decodeHtml :: "page \<Rightarrow> json \<Rightarrow> string" where
  "decodeHtml p html = (if \<not> truthy html then [] else decode_entities p (to_string html))"

section \<open>Strategy 1: structured data\<close>

text \<open>
  \<^verbatim>\<open>Array.isArray(types) ? types.includes('Product') : types === 'Product'\<close>.
\<close>

fun isProduct :: "json option \<Rightarrow> bool" where
  "isProduct (Some (JArr xs)) = (JStr ''Product'' \<in> set xs)"
| "isProduct (Some (JStr s)) = (s = ''Product'')"
| "isProduct _ = False"

text \<open>
  The offer the code reads: \<^verbatim>\<open>offers\<close> itself, or the first element when it is an
  array; none when \<^verbatim>\<open>offers\<close> is falsy or an empty array.
\<close>

fun first_offer :: "json option \<Rightarrow> json option" where
  "first_offer None = None"
| "first_offer (Some (JArr [])) = None"
| "first_offer (Some (JArr (x # xs))) = Some x"
| "first_offer (Some v) = (if truthy v then Some v else None)"

text \<open>
  \<^verbatim>\<open>o.price || (o.priceSpecification && o.priceSpecification.price) || ''\<close>.
\<close>

definition offer_price :: "json \<Rightarrow> json" where
  "offer_price off =
     or_else (js_get off ''price'')
       (or_else (case js_get off ''priceSpecification'' of
                   None \<Rightarrow> None
                 | Some ps \<Rightarrow> if truthy ps then js_get ps ''price'' else Some ps)
          (JStr []))"

text \<open>
  The three assignments to \<^verbatim>\<open>availability\<close> inside the offer: the field or
  \<^verbatim>\<open>''\<close>; the first element of an array, or \<^verbatim>\<open>''\<close>; of an object (an array is
  one, with neither key) its \<^verbatim>\<open>name\<close>, its \<^verbatim>\<open>@id\<close>, or \<^verbatim>\<open>''\<close>.
\<close>

definition offer_availability :: "json \<Rightarrow> json" where
  "offer_availability off =
     (let a0 = or_else (js_get off ''availability'') (JStr []);
          a1 = (case a0 of
                  JArr xs \<Rightarrow> or_else (case xs of [] \<Rightarrow> None | x # _ \<Rightarrow> Some x) (JStr [])
                | _ \<Rightarrow> a0)
      in case a1 of
           JArr xs \<Rightarrow> or_else (js_get a1 ''name'') (or_else (js_get a1 ''@id'') (JStr []))
         | JObj kvs \<Rightarrow> or_else (js_get a1 ''name'') (or_else (js_get a1 ''@id'') (JStr []))
         | _ \<Rightarrow> a1)"

text \<open>
  \<^verbatim>\<open>availability = String(availability || '')\<close>, then the last segment when the
  string has a slash. The conversion throws for an \<open>unprintable\<close> value; the
  caller tests for that first.
\<close>

definition normalize_availability :: "json \<Rightarrow> string" where
  "normalize_availability a =
     (let s = to_string (or_else (Some a) (JStr []))
      in if js_includes s ''/'' then pop (split_on (CHR ''/'') s) else s)"

text \<open>
  The body of \<^verbatim>\<open>if (isProduct)\<close>. It throws where \<^verbatim>\<open>decodeHtml\<close> meets a name
  or a SKU that is \<open>unprintable\<close>, where \<^verbatim>\<open>o.price\<close> is read of a first offer
  that is \<^verbatim>\<open>null\<close>, and where \<^verbatim>\<open>String\<close> meets an availability that is
  \<open>unprintable\<close>.
\<close>

definition product_record :: "page \<Rightarrow> json \<Rightarrow> error + extracted" where
  "product_record p obj =
     (if unprintable (or_else (js_get obj ''name'') (JStr []))
         \<or> unprintable (or_else (js_get obj ''sku'') (JStr []))
      then Inl TypeError
      else
        (let n = decodeHtml p (or_else (js_get obj ''name'') (JStr []));
             s = decodeHtml p (or_else (js_get obj ''sku'') (JStr []))
         in case first_offer (js_get obj ''offers'') of
              None \<Rightarrow>
                Inr \<lparr>name = n, sku = s, price = JStr [],
                     availability = normalize_availability (JStr [])\<rparr>
            | Some off \<Rightarrow>
                if off = JNull then Inl TypeError
                else if unprintable (offer_availability off) then Inl TypeError
                else Inr \<lparr>name = n, sku = s, price = offer_price off,
                          availability = normalize_availability (offer_availability off)\<rparr>))"

text \<open>
  The loop \<^verbatim>\<open>for (const obj of arr)\<close> of \<^verbatim>\<open>pickProduct\<close>: the first element whose
  \<^verbatim>\<open>@type\<close> is or includes \<^verbatim>\<open>Product\<close>. Reading \<^verbatim>\<open>obj['@type']\<close> throws on
  \<^verbatim>\<open>null\<close>.
\<close>

fun pick_from :: "page \<Rightarrow> json list \<Rightarrow> error + extracted option" where
  "pick_from p [] = Inr None"
| "pick_from p (obj # objs) =
     (if obj = JNull then Inl TypeError
      else if isProduct (js_get obj ''@type'') then
        (case product_record p obj of Inl e \<Rightarrow> Inl e | Inr r \<Rightarrow> Inr (Some r))
      else pick_from p objs)"

definition pickProduct :: "page \<Rightarrow> json \<Rightarrow> error + extracted option" where
  "pickProduct p j = pick_from p (case j of JArr xs \<Rightarrow> xs | _ \<Rightarrow> [j])"

text \<open>
  The loop over the scripts: a block that does not parse, or in which
  \<^verbatim>\<open>pickProduct\<close> throws, is skipped by the empty \<^verbatim>\<open>catch\<close>; the first block
  that yields a record ends the loop.
\<close>

fun structured_data :: "page \<Rightarrow> json option list \<Rightarrow> extracted option" where
  "structured_data p [] = None"
| "structured_data p (None # scripts) = structured_data p scripts"
| "structured_data p (Some j # scripts) =
     (case pickProduct p j of
        Inr (Some r) \<Rightarrow> Some r
      | _ \<Rightarrow> structured_data p scripts)"

section \<open>Strategy 2: platform metadata\<close>

text \<open>The decimal digits of an integer that is not negative.\<close>

definition digit_char :: "int \<Rightarrow> char" where
  "digit_char d = ''0123456789'' ! nat d"

function digits :: "int \<Rightarrow> string" where
  "digits n = (if n < 10 then [digit_char n] else digits (n div 10) @ [digit_char (n mod 10)])"
  by pat_completeness auto
termination
  by (relation "measure nat") auto

declare digits.simps [simp del]

text \<open>
  The quotient \<^verbatim>\<open>a / 100\<close> of floating-point numbers, for an integer
  \<open>1 \<le> a < 100 * 2^52\<close> that a double holds exactly (every integer up to
  \<open>2^53\<close> is one): the double nearest to the exact quotient, ties to the even
  significand. \<open>(m, k)\<close> stands for the double \<open>m / 2^k\<close>, where \<open>k\<close> is chosen
  so that the significand \<open>m\<close> has 53 bits. From \<open>100 * 2^52\<close> on the quotient
  has no fractional bits left, and from \<open>10^23\<close> on \<^verbatim>\<open>toFixed\<close> prints it with an
  exponent; the definitions below do not cover these.
\<close>

definition round_half_even :: "int \<Rightarrow> int \<Rightarrow> int" where
  "round_half_even p q =
     (let d = p div q; r = p mod q
      in if 2 * r < q then d
         else if q < 2 * r then d + 1
         else if even d then d else d + 1)"

definition binary_exponent :: "int \<Rightarrow> nat" where
  "binary_exponent a = length (takeWhile (\<lambda>k. a * 2 ^ k < 100 * 2 ^ 52) [0..<60])"

definition hundredth :: "int \<Rightarrow> int \<times> nat" where
  "hundredth a =
     (let k = binary_exponent a
      in (round_half_even (a * 2 ^ k) 100, k))"

text \<open>
  The integer that \<^verbatim>\<open>toFixed(2)\<close> takes of a double \<open>x = m / 2^k\<close>: the one
  nearest to \<open>100 x\<close>, the larger one of two.
\<close>

definition nearest_hundredfold :: "int \<times> nat \<Rightarrow> int" where
  "nearest_hundredfold x = (case x of (m, k) \<Rightarrow> (200 * m + 2 ^ k) div (2 * 2 ^ k))"

text \<open>
  \<^verbatim>\<open>(n / 100).toFixed(2)\<close> for such an integer \<open>n\<close>, \<open>0 < |n| < 100 * 2^52\<close>,
  by the steps of
  \<^verbatim>\<open>Number.prototype.toFixed\<close>: the sign, the digits of the integer nearest to a
  hundred times the absolute value of the quotient, padded with zeros to three
  digits, and a point before the last two.
\<close>

definition toFixed2_hundredths :: "int \<Rightarrow> string" where
  "toFixed2_hundredths n =
     (let sgn = (if n < 0 then ''-'' else []);
          m = digits (nearest_hundredfold (hundredth \<bar>n\<bar>));
          m' = (if length m \<le> 2 then replicate (3 - length m) (CHR ''0'') @ m else m)
      in sgn @ take (length m' - 2) m' @ ''.'' @ drop (length m' - 2) m')"

text \<open>
  \<^verbatim>\<open>sp.type && sp.type.includes('Case') ? (v.name || sp.handle) : (v.name || document.title)\<close>.
\<close>

definition fallback_name :: "page \<Rightarrow> shopify_product \<Rightarrow> variant \<Rightarrow> string" where
  "fallback_name p sp v =
     (if sp_type sp \<noteq> [] \<and> js_includes (sp_type sp) ''Case''
      then str_or (v_name v) (sp_handle sp)
      else str_or (v_name v) (title p))"

text \<open>\<^verbatim>\<open>v.price ? (v.price / 100).toFixed(2) : ''\<close>.\<close>

definition variant_price :: "variant \<Rightarrow> string" where
  "variant_price v =
     (case v_price v of
        None \<Rightarrow> []
      | Some n \<Rightarrow> if n \<noteq> 0 then toFixed2_hundredths n else [])"

text \<open>
  The block \<^verbatim>\<open>if (!extracted || !extracted.sku) { ... }\<close>. \<open>finalName\<close> is
  computed in both cases and used only where nothing was extracted.
\<close>

definition platform_metadata :: "page \<Rightarrow> extracted option \<Rightarrow> extracted option" where
  "platform_metadata p ex =
     (if (case ex of None \<Rightarrow> True | Some e \<Rightarrow> sku e = []) then
        (case shopify_meta p of
           None \<Rightarrow> ex
         | Some sp \<Rightarrow>
             (case sp_variants sp of
                [] \<Rightarrow> ex
              | v # vs \<Rightarrow>
                  (let nm = fallback_name p sp v;
                       finalName = decodeHtml p (JStr (str_or (case ex of None \<Rightarrow> [] | Some e \<Rightarrow> name e) nm));
                       sk = decodeHtml p (JStr (str_or (v_sku v) []));
                       pr = variant_price v
                   in case ex of
                        None \<Rightarrow> Some \<lparr>name = finalName, sku = sk, price = JStr pr, availability = []\<rparr>
                      | Some e \<Rightarrow>
                          (let e1 = (if sku e = [] then e\<lparr>sku := sk\<rparr> else e);
                               e2 = (if \<not> truthy (price e1) then e1\<lparr>price := JStr pr\<rparr> else e1)
                           in Some e2))))
      else ex)"

text \<open>\<^verbatim>\<open>if (!extracted) extracted = { name: '', sku: '', price: '', availability: '' }\<close>.\<close>

definition or_empty :: "extracted option \<Rightarrow> extracted" where
  "or_empty ex =
     (case ex of
        None \<Rightarrow> \<lparr>name = [], sku = [], price = JStr [], availability = []\<rparr>
      | Some e \<Rightarrow> e)"

section \<open>Strategy 3: the document\<close>

text \<open>\<^verbatim>\<open>a || b || c\<close> on the results of \<^verbatim>\<open>querySelector\<close>.\<close>

fun first_element :: "element option list \<Rightarrow> element option" where
  "first_element [] = None"
| "first_element (Some e # es) = Some e"
| "first_element (None # es) = first_element es"

text \<open>\<^verbatim>\<open>el ? (el.textContent || '').trim() : ''\<close>.\<close>

definition trimmed_text :: "element option \<Rightarrow> string" where
  "trimmed_text el = (case el of None \<Rightarrow> [] | Some e \<Rightarrow> trim (textContent e))"

text \<open>\<^verbatim>\<open>el.getAttribute('content')\<close>, \<^verbatim>\<open>null\<close> read as the empty string.\<close>

definition content_of :: "element \<Rightarrow> string" where
  "content_of e = (case content_attr e of None \<Rightarrow> [] | Some c \<Rightarrow> c)"

definition dom_name :: "page \<Rightarrow> extracted \<Rightarrow> extracted" where
  "dom_name p e =
     (if name e = [] then e\<lparr>name := trimmed_text (querySelector p ''h1'')\<rparr> else e)"

text \<open>
  \<^verbatim>\<open>raw.match(/(\d+(?:\.\d+)?)/)\<close>: the leftmost run of digits, with a point and
  further digits when they follow directly.
\<close>

definition is_digit :: "char \<Rightarrow> bool" where
  "is_digit c = (48 \<le> (of_char c :: nat) \<and> (of_char c :: nat) \<le> 57)"

fun first_number :: "string \<Rightarrow> string option" where
  "first_number [] = None"
| "first_number (c # cs) =
     (if is_digit c then
        (let ds = takeWhile is_digit (c # cs);
             rest = dropWhile is_digit (c # cs)
         in case rest of
              d # r \<Rightarrow>
                if d = CHR ''.'' \<and> takeWhile is_digit r \<noteq> []
                then Some (ds @ ''.'' @ takeWhile is_digit r)
                else Some ds
            | [] \<Rightarrow> Some ds)
      else first_number cs)"

definition dom_price :: "page \<Rightarrow> extracted \<Rightarrow> extracted" where
  "dom_price p e =
     (if \<not> truthy (price e) then
        (let priceMeta = querySelector p ''meta[property=\"product:price:amount\"]'';
             priceItemprop = querySelector p ''[itemprop=\"price\"]'';
             pr = str_or (case priceMeta of None \<Rightarrow> [] | Some m \<Rightarrow> content_of m)
                    (str_or (case priceItemprop of
                               None \<Rightarrow> []
                             | Some i \<Rightarrow> str_or (content_of i) (trim (textContent i)))
                       []);
             pr' = (if pr = [] then
                      (let priceEl = first_element
                             [querySelector p ''[itemprop=\"price\"]'',
                              querySelector p ''.price'',
                              querySelector p ''.product-price''];
                           raw = trimmed_text priceEl
                       in if raw = [] then raw
                          else (case first_number raw of Some m \<Rightarrow> m | None \<Rightarrow> raw))
                    else pr)
         in e\<lparr>price := JStr pr'\<rparr>)
      else e)"

text \<open>The three-way test on the detected text.\<close>

definition normalize_stock_text :: "string \<Rightarrow> string" where
  "normalize_stock_text text =
     (if js_includes (toLowerCase text) ''in stock'' \<or> js_includes text ''units left''
      then ''InStock''
      else if js_includes (toLowerCase text) ''out of stock''
              \<or> js_includes (toLowerCase text) ''sold out''
      then ''OutOfStock''
      else text)"

text \<open>The text the availability is detected from, before it is normalized.\<close>

definition detected_stock_text :: "page \<Rightarrow> string" where
  "detected_stock_text p =
     (let availEl = first_element
            [querySelector p ''[data-stock]'',
             querySelector p ''.availability'',
             querySelector p ''.stock-status'',
             querySelector p ''.product-form__inventory''];
          text = trimmed_text availEl
      in if text = [] then
           (let stockMatch = (case stock_match p of Some c \<Rightarrow> Some c | None \<Rightarrow> availability_match p);
                text1 = (case stockMatch of Some c \<Rightarrow> trim c | None \<Rightarrow> text)
            in if text1 = [] \<and> units_left_match p then ''InStock'' else text1)
         else text)"

definition dom_availability :: "page \<Rightarrow> extracted \<Rightarrow> extracted" where
  "dom_availability p e =
     (if availability e = [] then
        (let text = detected_stock_text p;
             e1 = (if text \<noteq> [] then e\<lparr>availability := normalize_stock_text text\<rparr> else e)
         in if js_includes (availability e1) ''/''
            then e1\<lparr>availability := pop (split_on (CHR ''/'') (availability e1))\<rparr>
            else e1)
      else e)"

definition dom_sku :: "page \<Rightarrow> extracted \<Rightarrow> extracted" where
  "dom_sku p e =
     (if sku e = [] then
        (let skuEl = first_element
               [querySelector p ''.sku'',
                querySelector p ''[itemprop=\"sku\"]'',
                querySelector p ''.product-sku'',
                querySelector p ''.variant-sku''];
             s = trimmed_text skuEl;
             s' = (if s = [] then (case sku_match p of Some c \<Rightarrow> trim c | None \<Rightarrow> s) else s)
         in e\<lparr>sku := s'\<rparr>)
      else e)"

section \<open>Final override and the whole extractor\<close>

definition final_override :: "extracted \<Rightarrow> extracted" where
  "final_override e =
     (if name e \<noteq> [] \<and> js_includes (toLowerCase (name e)) ''[discontinued]''
      then e\<lparr>availability := ''Discontinued''\<rparr>
      else e)"

text \<open>The function evaluated in the page, strategy after strategy.\<close>

definition after_structured_data :: "page \<Rightarrow> extracted option" where
  "after_structured_data p = structured_data p (ld_json p)"

definition after_platform_metadata :: "page \<Rightarrow> extracted" where
  "after_platform_metadata p = or_empty (platform_metadata p (after_structured_data p))"

definition after_dom :: "page \<Rightarrow> extracted" where
  "after_dom p = dom_sku p (dom_availability p (dom_price p (dom_name p (after_platform_metadata p))))"

definition extractor :: "page \<Rightarrow> extracted" where
  "extractor p = final_override (after_dom p)"

section \<open>One address of a batch\<close>

text \<open>
  What the browser does with one address: whether \<^verbatim>\<open>context.newPage()\<close>
  resolves, whether \<^verbatim>\<open>p.goto\<close> does, the document that \<^verbatim>\<open>p.evaluate\<close> runs the
  extractor in (\<open>None\<close> when the evaluation rejects, for an exception thrown
  inside the page as well), and whether \<^verbatim>\<open>p.close()\<close> resolves.
\<close>

record visit =
  opens :: bool
  loads :: bool
  document :: "page option"
  closes :: bool

text \<open>
  The async function mapped over a batch. \<open>Inr None\<close> is the value \<^verbatim>\<open>null\<close>,
  \<open>Inl\<close> a rejected promise. \<^verbatim>\<open>newPage\<close> is called before the \<^verbatim>\<open>try\<close>, and
  \<^verbatim>\<open>close\<close> in its \<^verbatim>\<open>finally\<close>: an error of either is not caught.
\<close>

definition scrape_url :: "(string \<Rightarrow> visit) \<Rightarrow> string \<Rightarrow> error + extracted option" where
  "scrape_url browser u =
     (if u = [] \<or> trim u = [] then Inr None
      else if \<not> opens (browser u) then Inl (PageRejected u)
      else
        (let info = (if loads (browser u)
                     then (case document (browser u) of
                             None \<Rightarrow> None
                           | Some p \<Rightarrow> Some (extractor p))
                     else None)
         in if closes (browser u) then Inr info else Inl (PageRejected u)))"

text \<open>\<^verbatim>\<open>await Promise.all(promises)\<close>: the results in order, or a rejection.\<close>

fun promise_all :: "(error + 'a) list \<Rightarrow> error + 'a list" where
  "promise_all [] = Inr []"
| "promise_all (Inl e # rs) = Inl e"
| "promise_all (Inr x # rs) =
     (case promise_all rs of Inl e \<Rightarrow> Inl e | Inr xs \<Rightarrow> Inr (x # xs))"

section \<open>The CSV file\<close>

definition header :: string where
  "header = ''name,sku,price,availability'' @ [CHR 0x0A]"

text \<open>\<^verbatim>\<open>s.replace(/"/g, '""')\<close>.\<close>

fun replace_quotes :: "string \<Rightarrow> string" where
  "replace_quotes [] = []"
| "replace_quotes (c # cs) =
     (if c = CHR 0x22 then [CHR 0x22, CHR 0x22] @ replace_quotes cs else c # replace_quotes cs)"

text \<open>
  \<^verbatim>\<open>esc = (v) => String(v || '').replace(/"/g, '""')\<close>. The conversion throws
  for an \<open>unprintable\<close> value; the caller tests for that first.
\<close>

definition esc :: "json \<Rightarrow> string" where
  "esc v = replace_quotes (to_string (or_else (Some v) (JStr [])))"

text \<open>The template \<^verbatim>\<open>`"${esc(info.name)}","${esc(info.sku)}",...`\<close>.\<close>

definition csv_line :: "extracted \<Rightarrow> string" where
  "csv_line info =
     [CHR 0x22] @ esc (JStr (name info)) @ [CHR 0x22] @ '','' @
     [CHR 0x22] @ esc (JStr (sku info)) @ [CHR 0x22] @ '','' @
     [CHR 0x22] @ esc (price info) @ [CHR 0x22] @ '','' @
     [CHR 0x22] @ esc (JStr (availability info)) @ [CHR 0x22]"

text \<open>\<^verbatim>\<open>results.filter(r => r !== null)\<close>.\<close>

fun validResults :: "extracted option list \<Rightarrow> extracted list" where
  "validResults [] = []"
| "validResults (None # rs) = validResults rs"
| "validResults (Some r # rs) = r # validResults rs"

text \<open>
  \<^verbatim>\<open>if (lines.length > 0) fs.appendFileSync(file, lines.join('\n') + '\n')\<close>; the
  file is its contents.
\<close>

definition append_rows :: "string \<Rightarrow> extracted list \<Rightarrow> string" where
  "append_rows file rows =
     (let lines = map csv_line rows
      in if length lines > 0 then file @ join [CHR 0x0A] lines @ [CHR 0x0A] else file)"

section \<open>The crawl\<close>

text \<open>
  One turn of the loop over the batches: a rejected promise leaves the loop
  before anything of the batch is written, and so does the formatting of the
  lines where \<^verbatim>\<open>esc\<close> meets a price that is \<open>unprintable\<close> (name, SKU and
  availability are strings); nothing in the loop catches either.
\<close>

definition process_batch :: "(string \<Rightarrow> visit) \<Rightarrow> string \<Rightarrow> string list \<Rightarrow> error + string" where
  "process_batch browser file batch =
     (case promise_all (map (scrape_url browser) batch) of
        Inl e \<Rightarrow> Inl e
      | Inr results \<Rightarrow>
          if list_ex (\<lambda>info. unprintable (price info)) (validResults results)
          then Inl TypeError
          else Inr (append_rows file (validResults results)))"

text \<open>
  The loop \<^verbatim>\<open>for (let i = 0; i < limit; i += BATCH_SIZE)\<close>, returning the file
  and the error that ended the run, if any.
\<close>

function crawl_from ::
  "(string \<Rightarrow> visit) \<Rightarrow> nat \<Rightarrow> nat \<Rightarrow> string list \<Rightarrow> string \<Rightarrow> string \<times> error option" where
  "crawl_from browser i limit productUrls file =
     (if i < limit then
        (case process_batch browser file (slice i (min (i + BATCH_SIZE) limit) productUrls) of
           Inl e \<Rightarrow> (file, Some e)
         | Inr file' \<Rightarrow> crawl_from browser (i + BATCH_SIZE) limit productUrls file')
      else (file, None))"
  by pat_completeness auto
termination
  by (relation "measure (\<lambda>(browser, i, limit, productUrls, file). limit - i)")
     (auto simp: BATCH_SIZE_def)

declare crawl_from.simps [simp del]

text \<open>
  From the discovered addresses on: the limit, the header written to the new
  file, the batches.
\<close>

definition crawl :: "(string \<Rightarrow> visit) \<Rightarrow> int \<Rightarrow> string list \<Rightarrow> string \<times> error option" where
  "crawl browser maxProducts productUrls =
     crawl_from browser 0 (limit_of maxProducts (length productUrls)) productUrls header"

section \<open>Notions of the specification\<close>

text \<open>
  A sitemap document as the specification reads it: text, then \<^verbatim>\<open>loc\<close> elements,
  each followed by more text. \<open>render_locs s0 [(t1, s1), (t2, s2)]\<close> is the
  document \<open>s0 <loc>t1</loc> s1 <loc>t2</loc> s2\<close>.
\<close>

definition render_locs :: "string \<Rightarrow> (string \<times> string) list \<Rightarrow> string" where
  "render_locs s0 ps = s0 @ concat (map (\<lambda>(t, s). ''<loc>'' @ t @ ''</loc>'' @ s) ps)"

text \<open>
  Character data that is its own text content: it holds no markup, no reference
  and no carriage return (which an XML parser reads as a line feed).
\<close>

definition plain_text :: "string \<Rightarrow> bool" where
  "plain_text t = (CHR ''<'' \<notin> set t \<and> CHR ''&'' \<notin> set t \<and> CHR 0x0D \<notin> set t)"

text \<open>
  A text in which a \<^verbatim>\<open>loc\<close> element starts, whatever the form of its start tag:
  \<^verbatim>\<open><loc\<close> followed by \<^verbatim>\<open>>\<close>, by \<^verbatim>\<open>/\<close> or by white space.
\<close>

fun has_loc_tag :: "string \<Rightarrow> bool" where
  "has_loc_tag [] = False"
| "has_loc_tag (c # cs) =
     ((prefix ''<loc'' (c # cs)
        \<and> (case drop 4 (c # cs) of
              [] \<Rightarrow> False
            | d # ds \<Rightarrow> d \<in> {CHR ''>'', CHR ''/'', CHR '' '', CHR 0x09, CHR 0x0A, CHR 0x0D}))
      \<or> has_loc_tag cs)"

text \<open>First-seen order: every element once, at the place of its first occurrence.\<close>

function first_seen :: "'a list \<Rightarrow> 'a list" where
  "first_seen [] = []"
| "first_seen (x # xs) = x # first_seen (filter (\<lambda>y. y \<noteq> x) xs)"
  by pat_completeness auto
termination
  by (relation "measure length") (auto simp: less_Suc_eq_le)

text \<open>
  The product addresses of the candidate sub-sitemaps, in the order in which the
  documents list them, duplicates included.
\<close>

definition candidate_urls :: "(string \<Rightarrow> string option) \<Rightarrow> string list \<Rightarrow> string list" where
  "candidate_urls fetch sms =
     concat (map (\<lambda>sm. case fetch sm of
                          None \<Rightarrow> []
                        | Some x \<Rightarrow> filter (\<lambda>u. js_includes u ''/products/'') (extract_locs x)) sms)"

text \<open>
  Navigation and extraction of an address complete without error: \<^verbatim>\<open>goto\<close>
  resolves and \<^verbatim>\<open>evaluate\<close> returns the record.
\<close>

definition completes :: "(string \<Rightarrow> visit) \<Rightarrow> string \<Rightarrow> bool" where
  "completes browser u = (loads (browser u) \<and> document (browser u) \<noteq> None)"

text \<open>
  An address that cannot end the run: it is not blank, its tab opens and closes,
  and where its navigation and extraction complete, the price of the record can
  be converted to a string.
\<close>

definition settles :: "(string \<Rightarrow> visit) \<Rightarrow> string \<Rightarrow> bool" where
  "settles browser u =
     (trim u \<noteq> [] \<and> opens (browser u) \<and> closes (browser u)
      \<and> (completes browser u
           \<longrightarrow> \<not> unprintable (price (extractor (the (document (browser u)))))))"

text \<open>
  The record an address contributes, if any, and the records of a list of
  addresses, in order.
\<close>

definition attempt :: "(string \<Rightarrow> visit) \<Rightarrow> string \<Rightarrow> extracted option" where
  "attempt browser u = (case scrape_url browser u of Inl e \<Rightarrow> None | Inr r \<Rightarrow> r)"

definition rows_of :: "(string \<Rightarrow> visit) \<Rightarrow> string list \<Rightarrow> extracted list" where
  "rows_of browser urls = validResults (map (attempt browser) urls)"

text \<open>One line per record, each ended by a newline.\<close>

definition rows_text :: "extracted list \<Rightarrow> string" where
  "rows_text rows = concat (map (\<lambda>r. csv_line r @ [CHR 0x0A]) rows)"

text \<open>A field in double quotes, every double quote inside it doubled.\<close>

definition quoted :: "string \<Rightarrow> string" where
  "quoted s = [CHR 0x22] @ concat (map (\<lambda>c. if c = CHR 0x22 then [CHR 0x22, CHR 0x22] else [c]) s) @ [CHR 0x22]"

text \<open>The text of the price field: \<^verbatim>\<open>String(v || '')\<close>.\<close>

definition price_text :: "extracted \<Rightarrow> string" where
  "price_text r = (if truthy (price r) then to_string (price r) else [])"

text \<open>The batches of a run, one after the other, until a promise is rejected.\<close>

fun run_batches :: "(string \<Rightarrow> visit) \<Rightarrow> string \<Rightarrow> string list list \<Rightarrow> string \<times> error option" where
  "run_batches browser file [] = (file, None)"
| "run_batches browser file (b # bs) =
     (case process_batch browser file b of
        Inl e \<Rightarrow> (file, Some e)
      | Inr file' \<Rightarrow> run_batches browser file' bs)"

text \<open>
  A later stage keeps what an earlier one filled: a field that is not empty (for
  the price: a value that JavaScript takes for true) has the same value afterwards.
\<close>

definition keeps_filled :: "extracted \<Rightarrow> extracted \<Rightarrow> bool" where
  "keeps_filled e e' =
     ((name e \<noteq> [] \<longrightarrow> name e' = name e)
    \<and> (sku e \<noteq> [] \<longrightarrow> sku e' = sku e)
    \<and> (truthy (price e) \<longrightarrow> price e' = price e)
    \<and> (availability e \<noteq> [] \<longrightarrow> availability e' = availability e))"

text \<open>
  An amount of minor units as a decimal number with two places: the sign, the
  whole units, a point, the tens and the ones of the hundredths.
\<close>

definition two_decimals :: "int \<Rightarrow> string" where
  "two_decimals n =
     (if n < 0 then ''-'' else []) @ digits (\<bar>n\<bar> div 100) @ ''.'' @
     [digit_char (\<bar>n\<bar> div 10 mod 10), digit_char (\<bar>n\<bar> mod 10)]"

section \<open>Example inputs\<close>

text \<open>
  A shop with a sitemap index, two product sitemaps that share addresses, and a
  sitemap of other pages.
\<close>

definition demo_fetch :: "string \<Rightarrow> string option" where
  "demo_fetch u =
     (if u = ''https://shop.test/sitemap.xml'' then
        Some ''<sitemapindex><sitemap><loc>https://shop.test/sitemap_products_1.xml</loc></sitemap><sitemap><loc>https://shop.test/sitemap_products_2.xml</loc></sitemap><sitemap><loc>https://shop.test/sitemap_pages_1.xml</loc></sitemap></sitemapindex>''
      else if u = ''https://shop.test/sitemap_products_1.xml'' then
        Some ''<urlset><url><loc>https://shop.test/products/a</loc></url><url><loc>https://shop.test/products/b</loc></url></urlset>''
      else if u = ''https://shop.test/sitemap_products_2.xml'' then
        Some ''<urlset><url><loc>https://shop.test/products/b</loc></url><url><loc>https://shop.test/</loc></url><url><loc>https://shop.test/products/c</loc></url><url><loc>https://shop.test/products/a</loc></url></urlset>''
      else None)"

text \<open>
  A product page with a JSON-LD block and nothing else, and a browser in which
  one address of the shop does not load and no address outside the shop does.
\<close>

definition demo_page :: "string \<Rightarrow> page" where
  "demo_page u =
     \<lparr>ld_json = [Some (JObj [(''@type'', JStr ''Product''), (''name'', JStr u),
                             (''sku'', JStr ''SKU-1''),
                             (''offers'', JObj [(''price'', JNum ''19.99''),
                                                (''availability'', JStr ''https://schema.org/InStock'')])])],
      shopify_meta = None,
      title = u,
      decode_entities = (\<lambda>s. s),
      querySelector = (\<lambda>sel. None),
      stock_match = None,
      availability_match = None,
      units_left_match = False,
      sku_match = None\<rparr>"

definition demo_browser :: "string \<Rightarrow> visit" where
  "demo_browser u =
     \<lparr>opens = True,
      loads = (prefix ''https://shop.test/'' u \<and> u \<noteq> ''https://shop.test/products/c''),
      document = Some (demo_page u),
      closes = True\<rparr>"

text \<open>
  The same browser with one address whose tab cannot be opened, with one whose
  tab cannot be closed, and with one whose page gives its price as an object
  with a member \<^verbatim>\<open>toString\<close>.
\<close>

definition demo_no_tab :: "string \<Rightarrow> visit" where
  "demo_no_tab u = (demo_browser u) \<lparr>opens := (u \<noteq> ''https://shop.test/products/b'')\<rparr>"

definition demo_no_close :: "string \<Rightarrow> visit" where
  "demo_no_close u = (demo_browser u) \<lparr>closes := (u \<noteq> ''https://shop.test/products/b'')\<rparr>"

definition demo_odd_page :: "string \<Rightarrow> page" where
  "demo_odd_page u =
     (demo_page u)
       \<lparr>ld_json := [Some (JObj [(''@type'', JStr ''Product''), (''name'', JStr u),
                                 (''sku'', JStr ''SKU-1''),
                                 (''offers'', JObj [(''price'', JObj [(''toString'', JNum ''1'')])])])]\<rparr>"

definition demo_odd_price :: "string \<Rightarrow> visit" where
  "demo_odd_price u =
     (demo_browser u)
       \<lparr>document := Some (if u = ''https://shop.test/products/b''
                            then demo_odd_page u else demo_page u)\<rparr>"

definition demo_urls :: "string list" where
  "demo_urls = map (\<lambda>c. ''https://shop.test/products/'' @ [c]) ''abcdefghijklmnopqrst''"

text \<open>A record whose name holds a double quote.\<close>

definition demo_obrien :: extracted where
  "demo_obrien = \<lparr>name = ''O\"Brien'', sku = ''S1'', price = JNum ''19.99'', availability = ''InStock''\<rparr>"

text \<open>
  A product page whose JSON-LD block, its price tag and its stock element disagree,
  and whose name carries the discontinued marker.
\<close>

definition demo_offer :: json where
  "demo_offer = JObj [(''price'', JNum ''19.99''), (''availability'', JStr ''https://schema.org/InStock'')]"

definition demo_product :: json where
  "demo_product =
     JObj [(''@type'', JStr ''Product''), (''name'', JStr ''Widget [Discontinued]''),
           (''sku'', JStr ''W-1''), (''offers'', JArr [demo_offer])]"

definition demo_dom_page :: page where
  "demo_dom_page =
     \<lparr>ld_json = [None, Some demo_product],
      shopify_meta = None,
      title = ''Widget'',
      decode_entities = (\<lambda>s. s),
      querySelector = (\<lambda>sel. if sel = ''meta[property=\"product:price:amount\"]''
                                then Some \<lparr>textContent = [], content_attr = Some ''99.00''\<rparr>
                                else if sel = ''.availability''
                                then Some \<lparr>textContent = ''In stock'', content_attr = None\<rparr>
                                else None),
      stock_match = None,
      availability_match = None,
      units_left_match = False,
      sku_match = None\<rparr>"

text \<open>
  A page whose JSON-LD product has neither name nor SKU, with the metadata of the
  shop platform; the same page without the JSON-LD block and with a price of
  zero, and with a price above \<open>2^52\<close>; a page that only has a stock element.
\<close>

definition demo_meta_page :: page where
  "demo_meta_page =
     \<lparr>ld_json = [Some (JObj [(''@type'', JStr ''Product''), (''name'', JStr []), (''sku'', JStr [])])],
      shopify_meta = Some \<lparr>sp_type = ''Widgets'', sp_handle = ''widget-red'',
                             sp_variants = [\<lparr>v_name = ''Widget - Red'', v_sku = ''W1'',
                                             v_price = Some 1999\<rparr>]\<rparr>,
      title = ''Widget - Red | Shop'',
      decode_entities = (\<lambda>s. s),
      querySelector = (\<lambda>sel. None),
      stock_match = None,
      availability_match = None,
      units_left_match = False,
      sku_match = None\<rparr>"

definition demo_free_page :: page where
  "demo_free_page =
     demo_meta_page
       \<lparr>ld_json := [],
        shopify_meta := Some \<lparr>sp_type = ''Widgets'', sp_handle = ''widget-red'',
                                sp_variants = [\<lparr>v_name = ''Widget - Red'', v_sku = ''W1'',
                                                v_price = Some 0\<rparr>]\<rparr>\<rparr>"

definition demo_big_page :: page where
  "demo_big_page =
     demo_meta_page
       \<lparr>ld_json := [],
        shopify_meta := Some \<lparr>sp_type = ''Widgets'', sp_handle = ''widget-red'',
                                sp_variants = [\<lparr>v_name = ''Widget - Red'', v_sku = ''W1'',
                                                v_price = Some 7036874417766401\<rparr>]\<rparr>\<rparr>"

definition demo_stock_page :: "string \<Rightarrow> page" where
  "demo_stock_page text =
     \<lparr>ld_json = [],
      shopify_meta = None,
      title = ''Widget'',
      decode_entities = (\<lambda>s. s),
      querySelector = (\<lambda>sel. if sel = ''.availability''
                                then Some \<lparr>textContent = text, content_attr = None\<rparr>
                                else None),
      stock_match = None,
      availability_match = None,
      units_left_match = False,
      sku_match = None\<rparr>"

section \<open>Sitemap discovery: properties\<close>

subsection \<open>The locations of a document\<close>

lemma no_loc_across:
  assumes np: "\<not> prefix ''<loc>'' (c # cs)" and r: "rest = [] \<or> hd rest = CHR ''<''"
  shows "\<not> prefix ''<loc>'' ((c # cs) @ rest)"
proof
  assume "prefix ''<loc>'' ((c # cs) @ rest)"
  then consider "prefix ''<loc>'' (c # cs)"
    | us where "''<loc>'' = (c # cs) @ us" "prefix us rest"
    unfolding prefix_append by blast
  then show False
  proof cases
    case 1
    with np show False by simp
  next
    case 2
    show False
    proof (cases us)
      case Nil
      with 2 np show False by simp
    next
      case (Cons u us')
      with 2 have "''loc>'' = cs @ u # us'" by simp
      then have "u \<in> set ''loc>''" by (metis in_set_conv_decomp)
      then have "u \<noteq> CHR ''<''" by auto
      moreover from 2 Cons have "rest \<noteq> [] \<and> hd rest = u" by (auto simp: prefix_def)
      ultimately show False using r by simp
    qed
  qed
qed

lemma skip_other:
  "\<not> js_includes s ''<loc>'' \<Longrightarrow> rest = [] \<or> hd rest = CHR ''<'' \<Longrightarrow>
   extract_locs (s @ rest) = extract_locs rest"
proof (induction s)
  case Nil
  then show ?case by simp
next
  case (Cons c cs)
  from Cons.prems have np: "\<not> prefix ''<loc>'' (c # cs)" and ni: "\<not> js_includes cs ''<loc>''"
    by simp_all
  have "\<not> prefix ''<loc>'' ((c # cs) @ rest)"
    using no_loc_across [OF np Cons.prems(2)] .
  then have "extract_locs ((c # cs) @ rest) = extract_locs (cs @ rest)"
    by (simp only: append_Cons extract_locs.simps if_False)
  with Cons.IH [OF ni Cons.prems(2)] show ?case by simp
qed

lemma take_loc:
  assumes "CHR ''<'' \<notin> set t" and "t \<noteq> []"
  shows "extract_locs (''<loc>'' @ t @ ''</loc>'' @ rest) = t # extract_locs rest"
proof -
  have al: "\<forall>x\<in>set t. x \<noteq> CHR ''<''"
    using assms(1) by auto
  have tw: "takeWhile (\<lambda>x. x \<noteq> CHR ''<'') (t @ ''</loc>'' @ rest) = t"
    using al by (simp add: takeWhile_append2)
  have dw: "dropWhile (\<lambda>x. x \<noteq> CHR ''<'') (t @ ''</loc>'' @ rest) = ''</loc>'' @ rest"
    using al by (simp add: dropWhile_append2)
  show ?thesis
    using tw dw assms(2) by (simp add: Let_def)
qed

lemma skip_empty_loc:
  assumes "\<not> js_includes s ''<loc>''" and "rest = [] \<or> hd rest = CHR ''<''"
  shows "extract_locs (''<loc></loc>'' @ s @ rest) = extract_locs rest"
proof -
  have "extract_locs (''<loc></loc>'' @ s @ rest) = extract_locs ((''loc></loc>'' @ s) @ rest)"
    by (simp add: Let_def)
  moreover have "\<not> js_includes (''loc></loc>'' @ s) ''<loc>''"
    using assms(1) by simp
  ultimately show ?thesis
    using skip_other [OF _ assms(2)] by simp
qed

lemma render_starts:
  "concat (map (\<lambda>(t, s). ''<loc>'' @ t @ ''</loc>'' @ s) ps) = [] \<or>
   hd (concat (map (\<lambda>(t, s). ''<loc>'' @ t @ ''</loc>'' @ s) ps)) = CHR ''<''"
  by (cases ps) auto

lemma no_loc_tag_includes: "\<not> has_loc_tag s \<Longrightarrow> \<not> js_includes s ''<loc>''"
  by (induction s) (auto simp: prefix_def)

text \<open>
  C5, as the claim states it, fails, in each of these documents. A \<^verbatim>\<open>loc\<close>
  element with empty text contributes no entry, because the pattern asks for at
  least one character. An element whose text is written with a reference
  contributes the reference as it is written, not the character. An element
  whose text is a CDATA section contributes nothing, and neither does one whose
  start tag holds white space. A \<^verbatim>\<open><loc>\<close> inside a comment, which is no
  element, contributes an entry. A carriage return in the text, which is a line
  feed in the text content, stays a carriage return.
\<close>

theorem extract_locs_empty_loc_counterexample:
  "extract_locs ''<urlset><url><loc></loc></url><url><loc>https://shop.test/a</loc></url></urlset>''
     = [''https://shop.test/a'']
   \<and> extract_locs ''<url><loc>https://shop.test/a?x=1&amp;y=2</loc></url>''
     = [''https://shop.test/a?x=1&amp;y=2'']
   \<and> extract_locs ''<url><loc><![CDATA[https://shop.test/a]]></loc></url>'' = []
   \<and> extract_locs ''<url><loc >https://shop.test/a</loc></url>'' = []
   \<and> extract_locs ''<!-- <loc>https://shop.test/old</loc> --><url><loc>https://shop.test/a</loc></url>''
     = [''https://shop.test/old'', ''https://shop.test/a'']
   \<and> extract_locs (''<url><loc>https://shop.test/a'' @ [CHR 0x0D] @ ''</loc></url>'')
     = [''https://shop.test/a'' @ [CHR 0x0D]]"
  by code_simp

text \<open>
  C5, amended: in a document whose \<^verbatim>\<open>loc\<close> elements are each written as
  \<^verbatim>\<open><loc>\<close>, character data that is its own text content, and \<^verbatim>\<open></loc>\<close>, and
  in which no \<^verbatim>\<open>loc\<close> tag occurs anywhere else, the extracted list is the
  sequence of the non-empty text contents of the \<^verbatim>\<open>loc\<close> elements, in document
  order, duplicates included; an element with empty text contributes nothing.
\<close>

theorem extract_locs_document:
  assumes "\<not> has_loc_tag s0"
    and "\<forall>(t, s) \<in> set ps. plain_text t \<and> \<not> has_loc_tag s"
  shows "extract_locs (render_locs s0 ps) = filter (\<lambda>t. t \<noteq> []) (map fst ps)"
proof -
  have "\<not> js_includes s0 ''<loc>''"
    using assms(1) by (rule no_loc_tag_includes)
  moreover have "\<forall>(t, s) \<in> set ps. CHR ''<'' \<notin> set t \<and> \<not> js_includes s ''<loc>''"
    using assms(2) no_loc_tag_includes by (auto simp: plain_text_def)
  ultimately show ?thesis
  proof (induction ps arbitrary: s0)
    case Nil
    then show ?case using skip_other [of s0 "[]"] by (simp add: render_locs_def)
  next
    case (Cons p ps)
    obtain t s where p: "p = (t, s)" by (cases p)
    let ?R = "concat (map (\<lambda>(t, s). ''<loc>'' @ t @ ''</loc>'' @ s) ps)"
    from Cons.prems p have t: "CHR ''<'' \<notin> set t" and s: "\<not> js_includes s ''<loc>''"
      and rest: "\<forall>(t, s) \<in> set ps. CHR ''<'' \<notin> set t \<and> \<not> js_includes s ''<loc>''"
      by auto
    have IH: "extract_locs (s @ ?R) = filter (\<lambda>t. t \<noteq> []) (map fst ps)"
      using Cons.IH [OF s rest] by (simp add: render_locs_def)
    have "extract_locs (render_locs s0 (p # ps)) = extract_locs (''<loc>'' @ t @ ''</loc>'' @ s @ ?R)"
      using skip_other [OF Cons.prems(1), of "''<loc>'' @ t @ ''</loc>'' @ s @ ?R"]
      by (simp add: render_locs_def p)
    also have "\<dots> = filter (\<lambda>t. t \<noteq> []) (map fst (p # ps))"
    proof (cases "t = []")
      case True
      then show ?thesis
        using skip_empty_loc [OF s render_starts [of ps]] IH skip_other [OF s render_starts [of ps]]
        by (simp add: p)
    next
      case False
      then show ?thesis
        using take_loc [OF t False, of "s @ ?R"] IH by (simp add: p)
    qed
    finally show ?case .
  qed
qed

lemma demo_document_plain:
  "\<forall>(t, s) \<in> set [(''https://shop.test/a'', ''</url><url>''), ([], ''</url><url>''),
                    (''https://shop.test/a'', ''</url><location>x</location></urlset>'')].
      plain_text t \<and> \<not> has_loc_tag s"
  by (simp add: plain_text_def)

theorem extract_locs_document_witness:
  "\<not> has_loc_tag ''<urlset><url>''
   \<and> list_all (\<lambda>(t, s). plain_text t \<and> \<not> has_loc_tag s)
         [(''https://shop.test/a'', ''</url><url>''), ([], ''</url><url>''),
          (''https://shop.test/a'', ''</url><location>x</location></urlset>'')]
   \<and> render_locs ''<urlset><url>''
          [(''https://shop.test/a'', ''</url><url>''), ([], ''</url><url>''),
           (''https://shop.test/a'', ''</url><location>x</location></urlset>'')]
       = ''<urlset><url><loc>https://shop.test/a</loc></url><url><loc></loc></url><url><loc>https://shop.test/a</loc></url><location>x</location></urlset>''
   \<and> extract_locs (render_locs ''<urlset><url>''
          [(''https://shop.test/a'', ''</url><url>''), ([], ''</url><url>''),
           (''https://shop.test/a'', ''</url><location>x</location></urlset>'')])
       = [''https://shop.test/a'', ''https://shop.test/a'']"
proof -
  have h1: "\<not> has_loc_tag ''<urlset><url>''" by simp
  have r: "render_locs ''<urlset><url>''
          [(''https://shop.test/a'', ''</url><url>''), ([], ''</url><url>''),
           (''https://shop.test/a'', ''</url><location>x</location></urlset>'')]
       = ''<urlset><url><loc>https://shop.test/a</loc></url><url><loc></loc></url><url><loc>https://shop.test/a</loc></url><location>x</location></urlset>''"
    by (simp add: render_locs_def)
  have e: "extract_locs (render_locs ''<urlset><url>''
          [(''https://shop.test/a'', ''</url><url>''), ([], ''</url><url>''),
           (''https://shop.test/a'', ''</url><location>x</location></urlset>'')])
       = [''https://shop.test/a'', ''https://shop.test/a'']"
    using extract_locs_document [OF h1 demo_document_plain] by simp
  show ?thesis
    using h1 demo_document_plain r e unfolding list_all_iff by (intro conjI)
qed

subsection \<open>The set of product addresses\<close>

lemma set_first_seen: "set (first_seen xs) = set xs"
  by (induction xs rule: first_seen.induct) auto

lemma distinct_first_seen: "distinct (first_seen xs)"
  by (induction xs rule: first_seen.induct) (auto simp: set_first_seen)

lemma foldl_set_add:
  "foldl set_add s xs = s @ first_seen (filter (\<lambda>u. u \<notin> set s) xs)"
proof (induction xs arbitrary: s)
  case Nil
  show ?case by simp
next
  case (Cons x xs)
  show ?case
  proof (cases "x \<in> set s")
    case True
    then show ?thesis using Cons.IH [of s] by (simp add: set_add_def)
  next
    case False
    have "filter (\<lambda>u. u \<notin> set (s @ [x])) xs = filter (\<lambda>y. y \<noteq> x) (filter (\<lambda>u. u \<notin> set s) xs)"
      by (induction xs) auto
    with False show ?thesis using Cons.IH [of "s @ [x]"] by (simp add: set_add_def)
  qed
qed

lemma add_products_foldl:
  "add_products s us = foldl set_add s (filter (\<lambda>u. js_includes u ''/products/'') us)"
  by (induction us arbitrary: s) auto

lemma collect_products_foldl:
  "collect_products fetch s sms = Inr r \<Longrightarrow> r = foldl set_add s (candidate_urls fetch sms)"
proof (induction sms arbitrary: s)
  case Nil
  then show ?case by (simp add: candidate_urls_def)
next
  case (Cons sm sms)
  then show ?case
    by (auto simp: candidate_urls_def add_products_foldl split: option.splits)
qed

lemma js_includes_set: "js_includes u t \<Longrightarrow> set t \<subseteq> set u"
proof (induction u)
  case Nil
  then show ?case by simp
next
  case (Cons c cs)
  from Cons.prems have "prefix t (c # cs) \<or> js_includes cs t" by simp
  then show ?case
  proof
    assume "prefix t (c # cs)"
    then show ?thesis by (rule set_mono_prefix)
  next
    assume "js_includes cs t"
    then have "set t \<subseteq> set cs" by (rule Cons.IH)
    then show ?thesis by auto
  qed
qed

lemma trim_Nil_spaces: "trim u = [] \<Longrightarrow> \<forall>c\<in>set u. js_space c"
proof -
  assume "trim u = []"
  then have a: "\<forall>c\<in>set (dropWhile js_space u). js_space c"
    by (simp add: trim_def)
  have "dropWhile js_space u = []"
  proof (rule ccontr)
    assume n: "dropWhile js_space u \<noteq> []"
    then have "\<not> js_space (hd (dropWhile js_space u))" by (rule hd_dropWhile)
    moreover have "hd (dropWhile js_space u) \<in> set (dropWhile js_space u)" using n by simp
    ultimately show False using a by blast
  qed
  then show ?thesis by simp
qed

lemma products_not_blank:
  assumes "js_includes u ''/products/''"
  shows "u \<noteq> [] \<and> trim u \<noteq> []"
proof -
  have "CHR ''/'' \<in> set u" using js_includes_set [OF assms] by simp
  moreover have "\<not> js_space (CHR ''/'')" by (simp add: js_space_def)
  ultimately show ?thesis using trim_Nil_spaces [of u] by auto
qed

lemma candidate_urls_products:
  "u \<in> set (candidate_urls fetch sms) \<Longrightarrow> js_includes u ''/products/''"
  by (auto simp: candidate_urls_def split: option.splits)

text \<open>
  C6: the addresses that discovery returns are pairwise different, none of them
  is empty or blank, and they stand in the order in which they are first seen
  across the candidate sub-sitemaps.
\<close>

theorem discover_ordered_set:
  assumes "fetch (sitemap_url url) = Some xml"
    and "discover fetch url = Inr urls"
  shows "distinct urls
       \<and> (\<forall>u\<in>set urls. u \<noteq> [] \<and> trim u \<noteq> [])
       \<and> urls = first_seen (candidate_urls fetch (product_sitemaps (extract_locs xml)))"
proof -
  let ?cs = "candidate_urls fetch (product_sitemaps (extract_locs xml))"
  from assms obtain s where s: "collect_products fetch [] (product_sitemaps (extract_locs xml)) = Inr s"
    and u: "urls = filter (\<lambda>u. u \<noteq> [] \<and> trim u \<noteq> []) s"
    by (auto simp: discover_def split: sum.splits)
  have "s = first_seen ?cs"
    using collect_products_foldl [OF s] by (simp add: foldl_set_add)
  moreover have nb: "\<forall>u\<in>set (first_seen ?cs). u \<noteq> [] \<and> trim u \<noteq> []"
    using candidate_urls_products products_not_blank unfolding set_first_seen by blast
  ultimately have "urls = first_seen ?cs" using u by simp
  then show ?thesis
    using distinct_first_seen [of ?cs] nb by simp
qed

lemma demo_sitemap_url: "sitemap_url ''https://shop.test/'' = ''https://shop.test/sitemap.xml''"
  by code_simp

lemma demo_discover:
  "discover demo_fetch ''https://shop.test/'' =
     Inr [''https://shop.test/products/a'', ''https://shop.test/products/b'',
          ''https://shop.test/products/c'']"
  by code_simp

lemma demo_root:
  "demo_fetch (sitemap_url ''https://shop.test/'') = Some (the (demo_fetch ''https://shop.test/sitemap.xml''))"
  by (simp add: demo_sitemap_url demo_fetch_def)

theorem discover_ordered_set_witness:
  "discover demo_fetch ''https://shop.test/'' =
     Inr [''https://shop.test/products/a'', ''https://shop.test/products/b'',
          ''https://shop.test/products/c'']
   \<and> distinct [''https://shop.test/products/a'', ''https://shop.test/products/b'',
          ''https://shop.test/products/c'']
   \<and> list_all (\<lambda>u. u \<noteq> [] \<and> trim u \<noteq> [])
         [''https://shop.test/products/a'', ''https://shop.test/products/b'',
          ''https://shop.test/products/c'']
   \<and> [''https://shop.test/products/a'', ''https://shop.test/products/b'',
          ''https://shop.test/products/c'']
      = first_seen (candidate_urls demo_fetch (product_sitemaps (extract_locs
           (the (demo_fetch ''https://shop.test/sitemap.xml'')))))"
  using demo_discover discover_ordered_set [OF demo_root demo_discover]
  unfolding list_all_iff by blast

section \<open>The crawl: properties\<close>

subsection \<open>Batches, rows and the file\<close>

lemma slice_append:
  "a \<le> b \<Longrightarrow> b \<le> c \<Longrightarrow> slice a b xs @ slice b c xs = slice a c xs"
proof -
  assume ab: "a \<le> b" and bc: "b \<le> c"
  have "take (b - a) (drop a xs) @ take (c - b) (drop (b - a) (drop a xs)) = take ((b - a) + (c - b)) (drop a xs)"
    by (simp add: take_add)
  then show ?thesis using ab bc by (simp add: slice_def)
qed

lemma concat_batches_from:
  "i \<le> limit \<Longrightarrow> concat (batches_from i limit urls) = slice i limit urls"
proof (induction i limit urls rule: batches_from.induct)
  case (1 i limit urls)
  show ?case
  proof (cases "i < limit")
    case False
    with 1 show ?thesis by (subst batches_from.simps) (simp add: slice_def)
  next
    case True
    show ?thesis
    proof (cases "i + BATCH_SIZE \<le> limit")
      case le: True
      then have "concat (batches_from (i + BATCH_SIZE) limit urls) = slice (i + BATCH_SIZE) limit urls"
        using "1.IH" True by simp
      then show ?thesis
        using True le slice_append [of i "i + BATCH_SIZE" limit urls]
        by (subst batches_from.simps) (simp add: min_def)
    next
      case gt: False
      then have "batches_from (i + BATCH_SIZE) limit urls = []"
        by (subst batches_from.simps) simp
      then show ?thesis
        using True gt by (subst batches_from.simps) (simp add: min_def)
    qed
  qed
qed

lemma crawl_from_run_batches:
  "crawl_from browser i limit urls out = run_batches browser out (batches_from i limit urls)"
proof (induction browser i limit urls out rule: crawl_from.induct)
  case (1 browser i limit urls out)
  show ?case
  proof (cases "i < limit")
    case False
    then show ?thesis by (subst crawl_from.simps, subst batches_from.simps) simp
  next
    case True
    then show ?thesis
      using "1.IH"
      by (subst crawl_from.simps, subst batches_from.simps) (simp split: sum.splits)
  qed
qed

lemma join_lines: "ls \<noteq> [] \<Longrightarrow> join [CHR 0x0A] ls @ [CHR 0x0A] = concat (map (\<lambda>l. l @ [CHR 0x0A]) ls)"
proof (induction ls rule: induct_list012)
  case 1
  then show ?case by simp
next
  case (2 x)
  show ?case by simp
next
  case (3 x y zs)
  then show ?case by simp
qed

lemma append_rows_text: "append_rows out rows = out @ rows_text rows"
proof (cases rows)
  case Nil
  then show ?thesis by (simp add: append_rows_def rows_text_def)
next
  case (Cons r rs)
  then have "map csv_line rows \<noteq> []" by simp
  from join_lines [OF this] show ?thesis
    using Cons by (simp add: append_rows_def rows_text_def Let_def comp_def)
qed

lemma promise_all_Inr:
  "promise_all (map f xs) = Inr rs \<Longrightarrow> rs = map (\<lambda>x. case f x of Inl e \<Rightarrow> None | Inr r \<Rightarrow> r) xs"
proof (induction xs arbitrary: rs)
  case Nil
  then show ?case by simp
next
  case (Cons x xs)
  then show ?case by (cases "f x") (auto split: sum.splits)
qed

lemma process_batch_rows:
  "process_batch browser out batch = Inr out' \<Longrightarrow> out' = out @ rows_text (rows_of browser batch)"
proof -
  assume a: "process_batch browser out batch = Inr out'"
  then obtain rs where rs: "promise_all (map (scrape_url browser) batch) = Inr rs"
    and o: "out' = append_rows out (validResults rs)"
    by (auto simp: process_batch_def split: sum.splits if_splits)
  have "rs = map (attempt browser) batch"
    using promise_all_Inr [OF rs] by (simp add: attempt_def)
  with o show ?thesis by (simp add: append_rows_text rows_of_def)
qed

lemma rows_of_append: "rows_of browser (xs @ ys) = rows_of browser xs @ rows_of browser ys"
proof -
  have "validResults (as @ bs) = validResults as @ validResults bs" for as bs :: "extracted option list"
    by (induction as rule: validResults.induct) auto
  then show ?thesis by (simp add: rows_of_def)
qed

lemma rows_text_append: "rows_text (xs @ ys) = rows_text xs @ rows_text ys"
  by (simp add: rows_text_def)

lemma length_validResults: "length (validResults rs) \<le> length rs"
  by (induction rs rule: validResults.induct) auto

lemma length_rows_of: "length (rows_of browser urls) \<le> length urls"
  using length_validResults [of "map (attempt browser) urls"] by (simp add: rows_of_def)

lemma run_batches_rows:
  "\<exists>k. k \<le> length bs
      \<and> fst (run_batches browser out bs) = out @ rows_text (rows_of browser (concat (take k bs)))
      \<and> (snd (run_batches browser out bs) = None \<longrightarrow> k = length bs)"
proof (induction bs arbitrary: out)
  case Nil
  show ?case by (simp add: rows_of_def rows_text_def)
next
  case (Cons b bs)
  show ?case
  proof (cases "process_batch browser out b")
    case (Inl e)
    show ?thesis
    proof (intro exI [of _ 0] conjI)
      show "0 \<le> length (b # bs)" by simp
      show "fst (run_batches browser out (b # bs)) = out @ rows_text (rows_of browser (concat (take 0 (b # bs))))"
        using Inl by (simp add: rows_of_def rows_text_def)
      show "snd (run_batches browser out (b # bs)) = None \<longrightarrow> 0 = length (b # bs)"
        using Inl by simp
    qed
  next
    case (Inr out')
    then have o: "out' = out @ rows_text (rows_of browser b)" by (rule process_batch_rows)
    from Cons.IH [of out'] obtain k where k: "k \<le> length bs"
      and f: "fst (run_batches browser out' bs) = out' @ rows_text (rows_of browser (concat (take k bs)))"
      and s: "snd (run_batches browser out' bs) = None \<longrightarrow> k = length bs"
      by (elim exE conjE)
    show ?thesis
    proof (intro exI [of _ "Suc k"] conjI)
      show "Suc k \<le> length (b # bs)" using k by simp
      have "fst (run_batches browser out (b # bs)) = fst (run_batches browser out' bs)"
        using Inr by simp
      also have "\<dots> = (out @ rows_text (rows_of browser b)) @ rows_text (rows_of browser (concat (take k bs)))"
        unfolding f unfolding o ..
      also have "\<dots> = out @ rows_text (rows_of browser (concat (take (Suc k) (b # bs))))"
        by (simp add: rows_of_append rows_text_append)
      finally show "fst (run_batches browser out (b # bs)) = out @ rows_text (rows_of browser (concat (take (Suc k) (b # bs))))" .
      have "snd (run_batches browser out (b # bs)) = snd (run_batches browser out' bs)"
        using Inr by simp
      then show "snd (run_batches browser out (b # bs)) = None \<longrightarrow> Suc k = length (b # bs)"
        using s by simp
    qed
  qed
qed

lemma length_batch: "b \<in> set (batches_from i limit urls) \<Longrightarrow> length b \<le> BATCH_SIZE"
proof (induction i limit urls rule: batches_from.induct)
  case (1 i limit urls)
  show ?case
  proof (cases "i < limit")
    case False
    with "1.prems" show ?thesis by (subst (asm) batches_from.simps) simp
  next
    case True
    from "1.prems" True have "b = slice i (min (i + BATCH_SIZE) limit) urls
        \<or> b \<in> set (batches_from (i + BATCH_SIZE) limit urls)"
      by (subst (asm) batches_from.simps) simp
    then show ?thesis
    proof
      assume "b = slice i (min (i + BATCH_SIZE) limit) urls"
      then show ?thesis by (simp add: slice_def)
    next
      assume "b \<in> set (batches_from (i + BATCH_SIZE) limit urls)"
      with "1.IH" True show ?thesis by simp
    qed
  qed
qed

lemma concat_take_prefix: "\<exists>n. n \<le> length (concat bs) \<and> concat (take k bs) = take n (concat bs)"
proof (intro exI [of _ "length (concat (take k bs))"] conjI)
  have "concat bs = concat (take k bs) @ concat (drop k bs)"
    by (metis append_take_drop_id concat_append)
  then show "length (concat (take k bs)) \<le> length (concat bs)"
    and "concat (take k bs) = take (length (concat (take k bs))) (concat bs)"
    by (metis length_append le_add1, metis append_eq_conv_conj)
qed

lemma crawl_file:
  "\<exists>n. n \<le> limit_of maxProducts (length productUrls)
     \<and> fst (crawl browser maxProducts productUrls) = header @ rows_text (rows_of browser (take n productUrls))
     \<and> length (rows_of browser (take n productUrls)) \<le> n"
proof -
  let ?limit = "limit_of maxProducts (length productUrls)"
  let ?bs = "batches_from 0 ?limit productUrls"
  have c: "concat ?bs = take ?limit productUrls"
    using concat_batches_from [of 0 ?limit productUrls] by (simp add: slice_def)
  obtain k where f: "fst (run_batches browser header ?bs) = header @ rows_text (rows_of browser (concat (take k ?bs)))"
    using run_batches_rows [of ?bs browser header] by (elim exE conjE)
  obtain n where n: "n \<le> length (concat ?bs)" and t: "concat (take k ?bs) = take n (concat ?bs)"
    using concat_take_prefix [of ?bs k] by (elim exE conjE)
  have nl: "n \<le> ?limit" using n c by simp
  have "take n (concat ?bs) = take n productUrls" using c nl by (simp add: min_def)
  with f t have "fst (crawl browser maxProducts productUrls) = header @ rows_text (rows_of browser (take n productUrls))"
    by (simp add: crawl_def crawl_from_run_batches)
  moreover have "length (rows_of browser (take n productUrls)) \<le> n"
    using length_rows_of [of browser "take n productUrls"] by simp
  ultimately show ?thesis using nl by blast
qed

lemma scrape_url_attempted:
  assumes "trim u \<noteq> []" and "opens (browser u)" and "closes (browser u)"
  shows "scrape_url browser u
       = Inr (if completes browser u then Some (extractor (the (document (browser u)))) else None)"
proof -
  from assms(1) have "u \<noteq> []" by (auto simp: trim_def)
  with assms show ?thesis
    by (auto simp: scrape_url_def completes_def Let_def split: option.splits)
qed

lemma promise_all_map_Inr:
  "\<forall>x\<in>set xs. f x = Inr (g x) \<Longrightarrow> promise_all (map f xs) = Inr (map g xs)"
  by (induction xs) auto

lemma validResults_map_if:
  "validResults (map (\<lambda>u. if P u then Some (h u) else None) xs) = map h (filter P xs)"
  by (induction xs) auto

lemma process_batch_settled:
  assumes "\<forall>u\<in>set batch. settles browser u"
  shows "process_batch browser out batch
           = Inr (out @ rows_text (map (\<lambda>u. extractor (the (document (browser u))))
                                     (filter (completes browser) batch)))"
proof -
  let ?g = "\<lambda>u. if completes browser u then Some (extractor (the (document (browser u)))) else None"
  have "\<forall>u\<in>set batch. scrape_url browser u = Inr (?g u)"
    using assms scrape_url_attempted by (simp add: settles_def)
  then have "promise_all (map (scrape_url browser) batch) = Inr (map ?g batch)"
    by (rule promise_all_map_Inr)
  moreover have "\<not> list_ex (\<lambda>info. unprintable (price info))
                     (map (\<lambda>u. extractor (the (document (browser u)))) (filter (completes browser) batch))"
    using assms by (auto simp: list_ex_iff settles_def)
  ultimately show ?thesis
    by (simp add: process_batch_def validResults_map_if append_rows_text)
qed

lemma run_batches_settled:
  assumes "\<forall>u\<in>set (concat bs). settles browser u"
  shows "run_batches browser out bs
           = (out @ rows_text (map (\<lambda>u. extractor (the (document (browser u))))
                                 (filter (completes browser) (concat bs))), None)"
  using assms
proof (induction bs arbitrary: out)
  case Nil
  show ?case by (simp add: rows_text_def)
next
  case (Cons b bs)
  from Cons.prems have b: "\<forall>u\<in>set b. settles browser u"
    and bs: "\<forall>u\<in>set (concat bs). settles browser u"
    by simp_all
  show ?case
    by (simp add: process_batch_settled [OF b] Cons.IH [OF bs] rows_text_append)
qed

lemma crawl_prefix:
  "\<exists>n. n \<le> limit_of maxProducts (length productUrls)
     \<and> fst (crawl browser maxProducts productUrls)
         = header @ rows_text (rows_of browser (take n productUrls))
     \<and> length (rows_of browser (take n productUrls)) \<le> limit_of maxProducts (length productUrls)
     \<and> (snd (crawl browser maxProducts productUrls) = None
          \<longrightarrow> n = limit_of maxProducts (length productUrls))"
proof -
  define limit where "limit = limit_of maxProducts (length productUrls)"
  define bs where "bs = batches_from 0 limit productUrls"
  have ll: "limit \<le> length productUrls" by (simp add: limit_def limit_of_def)
  have c: "concat bs = take limit productUrls"
    unfolding bs_def using concat_batches_from [of 0 limit productUrls] by (simp add: slice_def)
  have lc: "length (concat bs) = limit"
    unfolding c using ll by simp
  have cr: "crawl browser maxProducts productUrls = run_batches browser header bs"
    by (simp add: crawl_def crawl_from_run_batches bs_def limit_def)
  obtain k where f: "fst (run_batches browser header bs)
        = header @ rows_text (rows_of browser (concat (take k bs)))"
    and e: "snd (run_batches browser header bs) = None \<longrightarrow> k = length bs"
    using run_batches_rows [of bs browser header] by (elim exE conjE)
  define n where "n = length (concat (take k bs))"
  have split: "concat bs = concat (take k bs) @ concat (drop k bs)"
    by (metis append_take_drop_id concat_append)
  have t: "concat (take k bs) = take n (concat bs)"
    by (subst split) (simp add: n_def)
  have "n \<le> length (concat bs)"
    by (subst split) (simp add: n_def)
  then have nl: "n \<le> limit" unfolding lc .
  have "take n (concat bs) = take n productUrls"
    unfolding c using nl by (simp add: min_def)
  then have tn: "concat (take k bs) = take n productUrls"
    unfolding t .
  have 1: "fst (crawl browser maxProducts productUrls)
        = header @ rows_text (rows_of browser (take n productUrls))"
    unfolding cr f tn ..
  have "length (rows_of browser (take n productUrls)) \<le> length (take n productUrls)"
    by (rule length_rows_of)
  also have "\<dots> \<le> n" by simp
  finally have 2: "length (rows_of browser (take n productUrls)) \<le> limit"
    using nl by (rule order_trans)
  have 3: "snd (crawl browser maxProducts productUrls) = None \<longrightarrow> n = limit"
  proof
    assume "snd (crawl browser maxProducts productUrls) = None"
    then have "snd (run_batches browser header bs) = None" unfolding cr .
    with e have "k = length bs" by (rule mp)
    then have "n = length (concat bs)" unfolding n_def by simp
    then show "n = limit" unfolding lc .
  qed
  from nl 1 2 3 show ?thesis
    unfolding limit_def by (intro exI [of _ n] conjI)
qed

lemma replace_quotes_concat:
  "replace_quotes s = concat (map (\<lambda>c. if c = CHR 0x22 then [CHR 0x22, CHR 0x22] else [c]) s)"
  by (induction s) auto

lemma esc_string: "esc (JStr s) = replace_quotes s"
  by (simp add: esc_def or_else_def)

lemma esc_price: "esc (price r) = replace_quotes (price_text r)"
  by (simp add: esc_def or_else_def price_text_def)

lemma csv_line_quoted:
  "csv_line r = join '','' [quoted (name r), quoted (sku r), quoted (price_text r), quoted (availability r)]"
  by (simp add: csv_line_def quoted_def esc_string esc_price replace_quotes_concat)

lemma csv_line_not_empty: "csv_line r \<noteq> []"
  by (simp add: csv_line_def)

subsection \<open>The limit\<close>

text \<open>
  C7, as the claim states it, fails: of 20 discovered addresses and no maximum,
  the limit is 20, but the tab of the second address cannot be opened, the
  rejected promise ends the run inside the first batch, and the addresses of the
  second batch are never attempted: the eleventh would load and has no row. The
  same happens where the tab of the second address cannot be closed, and where
  the price of its record cannot be converted to a string.
\<close>

theorem rejected_batch_counterexample:
  "limit_of 0 (length demo_urls) = 20
   \<and> ''https://shop.test/products/k'' \<in> set (take 20 demo_urls)
   \<and> completes demo_no_tab ''https://shop.test/products/k''
   \<and> crawl demo_no_tab 0 demo_urls = (header, Some (PageRejected ''https://shop.test/products/b''))
   \<and> completes demo_no_close ''https://shop.test/products/k''
   \<and> crawl demo_no_close 0 demo_urls = (header, Some (PageRejected ''https://shop.test/products/b''))
   \<and> completes demo_odd_price ''https://shop.test/products/k''
   \<and> crawl demo_odd_price 0 demo_urls = (header, Some TypeError)"
  by code_simp

text \<open>
  C7, amended: the limit is the minimum of a positive \<open>maxProducts\<close> and the
  number of discovered addresses, and that number otherwise; the loop runs over
  batches that together are the first \<open>limit\<close> addresses, in order, and a batch
  that is rejected ends it. So the file holds the rows of a prefix of the first
  \<open>limit\<close> addresses, at most \<open>limit\<close> rows, and of all of them when the run ends
  without an error. Where every one of the first \<open>limit\<close> addresses settles, the
  run attempts exactly these: it ends without an error, and the file holds the
  row of each of them whose navigation and extraction complete, and no other.
\<close>

theorem limit_and_batches:
  "limit_of maxProducts (length productUrls)
     = (if maxProducts > 0 then min (nat maxProducts) (length productUrls) else length productUrls)
   \<and> crawl browser maxProducts productUrls
     = run_batches browser header (batches_from 0 (limit_of maxProducts (length productUrls)) productUrls)
   \<and> concat (batches_from 0 (limit_of maxProducts (length productUrls)) productUrls)
     = take (limit_of maxProducts (length productUrls)) productUrls
   \<and> length (take (limit_of maxProducts (length productUrls)) productUrls)
     = limit_of maxProducts (length productUrls)
   \<and> (\<exists>n. n \<le> limit_of maxProducts (length productUrls)
        \<and> fst (crawl browser maxProducts productUrls)
            = header @ rows_text (rows_of browser (take n productUrls))
        \<and> length (rows_of browser (take n productUrls)) \<le> limit_of maxProducts (length productUrls)
        \<and> (snd (crawl browser maxProducts productUrls) = None
             \<longrightarrow> n = limit_of maxProducts (length productUrls)))
   \<and> ((\<forall>u\<in>set (take (limit_of maxProducts (length productUrls)) productUrls). settles browser u)
        \<longrightarrow> crawl browser maxProducts productUrls
            = (header @ rows_text
                 (map (\<lambda>u. extractor (the (document (browser u))))
                    (filter (completes browser)
                       (take (limit_of maxProducts (length productUrls)) productUrls))),
               None))"
proof -
  let ?limit = "limit_of maxProducts (length productUrls)"
  have 1: "?limit = (if maxProducts > 0 then min (nat maxProducts) (length productUrls) else length productUrls)"
    by (simp add: limit_of_def)
  have 2: "crawl browser maxProducts productUrls = run_batches browser header (batches_from 0 ?limit productUrls)"
    by (simp add: crawl_def crawl_from_run_batches)
  have 3: "concat (batches_from 0 ?limit productUrls) = take ?limit productUrls"
    using concat_batches_from [of 0 ?limit productUrls] by (simp add: slice_def)
  have "?limit \<le> length productUrls" by (simp add: limit_of_def)
  then have 4: "length (take ?limit productUrls) = ?limit" by simp
  have 5: "\<exists>n. n \<le> ?limit
        \<and> fst (crawl browser maxProducts productUrls) = header @ rows_text (rows_of browser (take n productUrls))
        \<and> length (rows_of browser (take n productUrls)) \<le> ?limit
        \<and> (snd (crawl browser maxProducts productUrls) = None \<longrightarrow> n = ?limit)"
    by (rule crawl_prefix)
  have 6: "(\<forall>u\<in>set (take ?limit productUrls). settles browser u)
        \<longrightarrow> crawl browser maxProducts productUrls
            = (header @ rows_text
                 (map (\<lambda>u. extractor (the (document (browser u))))
                    (filter (completes browser) (take ?limit productUrls))),
               None)"
  proof
    assume "\<forall>u\<in>set (take ?limit productUrls). settles browser u"
    then have "\<forall>u\<in>set (concat (batches_from 0 ?limit productUrls)). settles browser u"
      unfolding 3 .
    from run_batches_settled [OF this, of header]
    show "crawl browser maxProducts productUrls
            = (header @ rows_text
                 (map (\<lambda>u. extractor (the (document (browser u))))
                    (filter (completes browser) (take ?limit productUrls))),
               None)"
      unfolding 2 3 .
  qed
  show ?thesis using 1 2 3 4 5 6 by (intro conjI)
qed

lemma demo_limit: "limit_of 5 (length demo_urls) = 5"
  by code_simp

lemma demo_len: "length demo_urls = 20"
  by code_simp

lemma demo_five_settle: "\<forall>u\<in>set (take 5 demo_urls). settles demo_browser u"
  by code_simp

lemma demo_five_completed:
  "filter (completes demo_browser) (take 5 demo_urls)
     = map (\<lambda>c. ''https://shop.test/products/'' @ [c]) ''abde''"
  by code_simp

theorem limit_and_batches_witness:
  "length demo_urls = 20
   \<and> limit_of 5 (length demo_urls) = 5
   \<and> list_all (settles demo_browser) (take 5 demo_urls)
   \<and> take 5 demo_urls = map (\<lambda>c. ''https://shop.test/products/'' @ [c]) ''abcde''
   \<and> crawl demo_browser 5 demo_urls
       = (header @ rows_text
            (map (\<lambda>u. extractor (the (document (demo_browser u))))
               (map (\<lambda>c. ''https://shop.test/products/'' @ [c]) ''abde'')),
          None)"
proof -
  note t = limit_and_batches [of 5 demo_urls demo_browser, unfolded demo_limit]
  from t have "(\<forall>u\<in>set (take 5 demo_urls). settles demo_browser u)
        \<longrightarrow> crawl demo_browser 5 demo_urls
            = (header @ rows_text
                 (map (\<lambda>u. extractor (the (document (demo_browser u))))
                    (filter (completes demo_browser) (take 5 demo_urls))),
               None)"
    by (elim conjE)
  then have c: "crawl demo_browser 5 demo_urls
       = (header @ rows_text
            (map (\<lambda>u. extractor (the (document (demo_browser u))))
               (map (\<lambda>c. ''https://shop.test/products/'' @ [c]) ''abde'')),
          None)"
    using demo_five_settle unfolding demo_five_completed by (rule mp)
  have f: "take 5 demo_urls = map (\<lambda>c. ''https://shop.test/products/'' @ [c]) ''abcde''"
    by code_simp
  show ?thesis
    using demo_len demo_limit demo_five_settle f c unfolding list_all_iff by (intro conjI)
qed

subsection \<open>Failures inside a batch\<close>






text \<open>
  C10: when every result of a batch is \<^verbatim>\<open>null\<close>, the batch leaves the file as it
  was. The file of a run is the header followed by one line per record, each
  ended by a newline, and no such line is empty.
\<close>

theorem failed_batch_appends_nothing:
  assumes "promise_all (map (scrape_url browser) batch) = Inr results"
    and "\<forall>r\<in>set results. r = None"
  shows "process_batch browser out batch = Inr out
       \<and> (\<exists>rows. fst (crawl browser maxProducts productUrls) = header @ rows_text rows)
       \<and> rows_text rows = concat (map (\<lambda>r. csv_line r @ [CHR 0x0A]) rows)
       \<and> csv_line r \<noteq> []"
proof (intro conjI)
  have "validResults results = []"
    using assms(2) by (induction results rule: validResults.induct) auto
  then show "process_batch browser out batch = Inr out"
    using assms(1) by (simp add: process_batch_def append_rows_def)
  show "\<exists>rows. fst (crawl browser maxProducts productUrls) = header @ rows_text rows"
    using crawl_file [of maxProducts productUrls browser] by blast
  show "rows_text rows = concat (map (\<lambda>r. csv_line r @ [CHR 0x0A]) rows)"
    by (simp add: rows_text_def)
  show "csv_line r \<noteq> []" by (rule csv_line_not_empty)
qed

lemma demo_down:
  "promise_all (map (scrape_url demo_browser) [''https://down.test/products/x'', ''https://shop.test/products/c''])
     = Inr [None, None]"
  by code_simp

theorem failed_batch_appends_nothing_witness:
  "promise_all (map (scrape_url demo_browser) [''https://down.test/products/x'', ''https://shop.test/products/c''])
     = Inr [None, None]
   \<and> process_batch demo_browser header [''https://down.test/products/x'', ''https://shop.test/products/c'']
     = Inr header"
proof -
  have "\<forall>r\<in>set [None, None :: extracted option]. r = None" by simp
  from failed_batch_appends_nothing [OF demo_down this, of header]
  show ?thesis using demo_down by blast
qed

subsection \<open>The format of the file\<close>

text \<open>
  C9: the file of a run is the header, once, followed by rows; a batch appends the
  records that survived, one line each, joined by newlines and ended by one;
  a line is the four fields, each in double quotes with the double quotes inside
  doubled, joined by commas.
\<close>

theorem csv_sink_format:
  "(\<exists>rows. fst (crawl browser maxProducts productUrls) = header @ rows_text rows)
   \<and> header = ''name,sku,price,availability'' @ [CHR 0x0A]
   \<and> (process_batch browser out batch = Inr out' \<longrightarrow> out' = append_rows out (rows_of browser batch))
   \<and> append_rows out rows
       = (if rows = [] then out else out @ join [CHR 0x0A] (map csv_line rows) @ [CHR 0x0A])
   \<and> csv_line r
       = join '','' [quoted (name r), quoted (sku r), quoted (price_text r), quoted (availability r)]"
proof (intro conjI)
  show "\<exists>rows. fst (crawl browser maxProducts productUrls) = header @ rows_text rows"
    using crawl_file [of maxProducts productUrls browser] by blast
  show "header = ''name,sku,price,availability'' @ [CHR 0x0A]" by (simp add: header_def)
  show "process_batch browser out batch = Inr out' \<longrightarrow> out' = append_rows out (rows_of browser batch)"
    using process_batch_rows [of browser out batch out'] by (simp add: append_rows_text)
  show "append_rows out rows
       = (if rows = [] then out else out @ join [CHR 0x0A] (map csv_line rows) @ [CHR 0x0A])"
    by (simp add: append_rows_def)
  show "csv_line r
       = join '','' [quoted (name r), quoted (sku r), quoted (price_text r), quoted (availability r)]"
    by (rule csv_line_quoted)
qed

lemma demo_one:
  "process_batch demo_browser header [''https://shop.test/products/a'']
     = Inr (''name,sku,price,availability'' @ [CHR 0x0A] @
            ''\"https://shop.test/products/a\",\"SKU-1\",\"19.99\",\"InStock\"'' @ [CHR 0x0A])"
  by code_simp

theorem csv_sink_format_witness:
  "process_batch demo_browser header [''https://shop.test/products/a'']
     = Inr (''name,sku,price,availability'' @ [CHR 0x0A] @
            ''\"https://shop.test/products/a\",\"SKU-1\",\"19.99\",\"InStock\"'' @ [CHR 0x0A])
   \<and> ''name,sku,price,availability'' @ [CHR 0x0A] @
            ''\"https://shop.test/products/a\",\"SKU-1\",\"19.99\",\"InStock\"'' @ [CHR 0x0A]
       = append_rows header (rows_of demo_browser [''https://shop.test/products/a''])
   \<and> csv_line demo_obrien = ''\"O\"\"Brien\",\"S1\",\"19.99\",\"InStock\"''"
proof -
  note t = csv_sink_format [of demo_browser 5 demo_urls header "[''https://shop.test/products/a'']"
      "''name,sku,price,availability'' @ [CHR 0x0A] @
            ''\"https://shop.test/products/a\",\"SKU-1\",\"19.99\",\"InStock\"'' @ [CHR 0x0A]"
      "[]" demo_obrien]
  from t demo_one have a: "''name,sku,price,availability'' @ [CHR 0x0A] @
            ''\"https://shop.test/products/a\",\"SKU-1\",\"19.99\",\"InStock\"'' @ [CHR 0x0A]
       = append_rows header (rows_of demo_browser [''https://shop.test/products/a''])"
    by blast
  from t have "csv_line demo_obrien
       = join '','' [quoted (name demo_obrien), quoted (sku demo_obrien),
                     quoted (price_text demo_obrien), quoted (availability demo_obrien)]"
    by blast
  then have b: "csv_line demo_obrien = ''\"O\"\"Brien\",\"S1\",\"19.99\",\"InStock\"''"
    by (simp add: quoted_def demo_obrien_def price_text_def)
  show ?thesis using demo_one a b by (intro conjI)
qed

section \<open>The extractor: properties\<close>

subsection \<open>Priority of the strategies\<close>

lemma keeps_filled_refl: "keeps_filled e e"
  by (simp add: keeps_filled_def)

lemma keeps_filled_trans: "keeps_filled a b \<Longrightarrow> keeps_filled b c \<Longrightarrow> keeps_filled a c"
  unfolding keeps_filled_def
  by (metis truthy.simps(4))

lemma platform_metadata_keeps:
  "keeps_filled r (or_empty (platform_metadata p (Some r)))"
  by (auto simp: platform_metadata_def or_empty_def keeps_filled_def Let_def
      split: option.splits list.splits)

lemma dom_name_keeps: "keeps_filled e (dom_name p e)"
  by (simp add: dom_name_def keeps_filled_def)

lemma dom_price_keeps: "keeps_filled e (dom_price p e)"
  by (simp add: dom_price_def keeps_filled_def Let_def)

lemma dom_availability_keeps: "keeps_filled e (dom_availability p e)"
  by (simp add: dom_availability_def keeps_filled_def Let_def)

lemma dom_sku_keeps: "keeps_filled e (dom_sku p e)"
  by (simp add: dom_sku_def keeps_filled_def Let_def)


text \<open>
  C1: what the structured data filled is kept by the platform metadata, what
  either filled is kept by the document heuristics, and the final override
  changes nothing but the availability, to \<^verbatim>\<open>Discontinued\<close>, for a name with the
  marker. In particular a price from the structured data that is not empty is the
  price of the final record.
\<close>

theorem filled_fields_kept:
  "(\<forall>r. after_structured_data p = Some r \<longrightarrow> keeps_filled r (after_platform_metadata p))
   \<and> keeps_filled (after_platform_metadata p) (after_dom p)
   \<and> name (extractor p) = name (after_dom p)
   \<and> sku (extractor p) = sku (after_dom p)
   \<and> price (extractor p) = price (after_dom p)
   \<and> (availability (extractor p) = availability (after_dom p)
        \<or> availability (extractor p) = ''Discontinued''
          \<and> js_includes (toLowerCase (name (extractor p))) ''[discontinued]'')
   \<and> (\<forall>r. after_structured_data p = Some r \<and> truthy (price r) \<longrightarrow> price (extractor p) = price r)"
proof -
  have a: "\<forall>r. after_structured_data p = Some r \<longrightarrow> keeps_filled r (after_platform_metadata p)"
    by (simp add: after_platform_metadata_def platform_metadata_keeps)
  have b: "keeps_filled (after_platform_metadata p) (after_dom p)"
  proof -
    let ?e0 = "after_platform_metadata p"
    let ?e1 = "dom_name p ?e0"
    let ?e2 = "dom_price p ?e1"
    let ?e3 = "dom_availability p ?e2"
    have "keeps_filled ?e0 ?e2"
      using keeps_filled_trans [OF dom_name_keeps dom_price_keeps] .
    then have "keeps_filled ?e0 ?e3"
      using keeps_filled_trans [OF _ dom_availability_keeps] by blast
    then have "keeps_filled ?e0 (dom_sku p ?e3)"
      using keeps_filled_trans [OF _ dom_sku_keeps] by blast
    then show ?thesis by (simp add: after_dom_def)
  qed
  have c: "name (extractor p) = name (after_dom p)" "sku (extractor p) = sku (after_dom p)"
    "price (extractor p) = price (after_dom p)"
    by (simp_all add: extractor_def final_override_def)
  have d: "availability (extractor p) = availability (after_dom p)
        \<or> availability (extractor p) = ''Discontinued''
          \<and> js_includes (toLowerCase (name (extractor p))) ''[discontinued]''"
    by (simp add: extractor_def final_override_def)
  have e: "\<forall>r. after_structured_data p = Some r \<and> truthy (price r) \<longrightarrow> price (extractor p) = price r"
  proof (intro allI impI)
    fix r assume r: "after_structured_data p = Some r \<and> truthy (price r)"
    with a have "price (after_platform_metadata p) = price r" by (simp add: keeps_filled_def)
    with r b have "price (after_dom p) = price r" by (simp add: keeps_filled_def)
    with c show "price (extractor p) = price r" by simp
  qed
  show ?thesis using a b c d e by (intro conjI)
qed

lemma demo_dom_structured:
  "after_structured_data demo_dom_page
     = Some \<lparr>name = ''Widget [Discontinued]'', sku = ''W-1'', price = JNum ''19.99'', availability = ''InStock''\<rparr>"
  by code_simp

lemma demo_dom_extractor:
  "extractor demo_dom_page
     = \<lparr>name = ''Widget [Discontinued]'', sku = ''W-1'', price = JNum ''19.99'', availability = ''Discontinued''\<rparr>"
  by code_simp

theorem filled_fields_kept_witness:
  "after_structured_data demo_dom_page
     = Some \<lparr>name = ''Widget [Discontinued]'', sku = ''W-1'', price = JNum ''19.99'', availability = ''InStock''\<rparr>
   \<and> truthy (JNum ''19.99'')
   \<and> price (extractor demo_dom_page) = JNum ''19.99''
   \<and> availability (extractor demo_dom_page) = ''Discontinued''"
proof -
  from filled_fields_kept [of demo_dom_page]
  have "\<forall>r. after_structured_data demo_dom_page = Some r \<and> truthy (price r)
          \<longrightarrow> price (extractor demo_dom_page) = price r"
    by (elim conjE)
  then have "price (extractor demo_dom_page) = JNum ''19.99''"
    using demo_dom_structured by simp
  then show ?thesis using demo_dom_structured demo_dom_extractor by simp
qed


subsection \<open>Availability\<close>

lemma js_includes_single: "js_includes s [c] = (c \<in> set s)"
  by (induction s) auto

lemma split_on_not_empty: "split_on d s \<noteq> []"
  by (induction s) (auto split: list.splits)

lemma split_on_no_sep: "d \<notin> set t \<Longrightarrow> split_on d t = [t]"
  by (induction t) auto

lemma split_on_two: "d \<in> set s \<Longrightarrow> length (split_on d s) \<ge> 2"
proof (induction s)
  case Nil
  then show ?case by simp
next
  case (Cons c cs)
  show ?case
  proof (cases "c = d")
    case True
    then show ?thesis using split_on_not_empty [of d cs]
      by (cases "split_on d cs") auto
  next
    case False
    with Cons.prems have "d \<in> set cs" by simp
    then have "length (split_on d cs) \<ge> 2" by (rule Cons.IH)
    with False show ?thesis by (cases "split_on d cs") auto
  qed
qed

lemma last_segment:
  "d \<notin> set t \<Longrightarrow> pop (split_on d (pre @ d # t)) = t"
proof (induction pre)
  case Nil
  then show ?case by (simp add: pop_def split_on_no_sep)
next
  case (Cons c cs)
  have "length (split_on d (cs @ d # t)) \<ge> 2"
    by (rule split_on_two) simp
  then obtain w v vs where w: "split_on d (cs @ d # t) = w # v # vs"
    by (cases "split_on d (cs @ d # t)"; cases "tl (split_on d (cs @ d # t))") auto
  then have "last (split_on d (c # cs @ d # t)) = last (split_on d (cs @ d # t))"
    by simp
  with Cons show ?case by (simp add: pop_def)
qed

lemma normalize_availability_segment:
  assumes "CHR ''/'' \<notin> set t"
  shows "normalize_availability (JStr (pre @ ''/'' @ t)) = t"
  using last_segment [OF assms, of pre]
  by (simp add: normalize_availability_def or_else_def js_includes_single)

lemma dom_availability_cong:
  "availability e = availability e' \<Longrightarrow>
   availability (dom_availability p e) = availability (dom_availability p e')"
  by (simp add: dom_availability_def Let_def pop_def)

lemma availability_after_dom:
  "availability (after_dom p) = availability (dom_availability p (after_platform_metadata p))"
proof -
  have "availability (dom_price p (dom_name p (after_platform_metadata p)))
      = availability (after_platform_metadata p)"
    by (simp add: dom_price_def dom_name_def Let_def)
  then have "availability (dom_availability p (dom_price p (dom_name p (after_platform_metadata p))))
      = availability (dom_availability p (after_platform_metadata p))"
    by (rule dom_availability_cong)
  moreover have "availability (dom_sku p e) = availability e" for e
    by (simp add: dom_sku_def Let_def)
  ultimately show ?thesis by (simp add: after_dom_def)
qed

lemma js_includes_nonempty: "js_includes s t \<Longrightarrow> t \<noteq> [] \<Longrightarrow> s \<noteq> []"
  by (cases s) auto

lemma no_slash_InStock: "\<not> js_includes ''InStock'' ''/''" "\<not> js_includes ''OutOfStock'' ''/''"
  by simp_all

lemma dom_availability_in_stock:
  assumes "availability e = []"
    and "js_includes (toLowerCase (detected_stock_text p)) ''in stock''
         \<or> js_includes (detected_stock_text p) ''units left''"
  shows "availability (dom_availability p e) = ''InStock''"
proof -
  have "detected_stock_text p \<noteq> []"
    using assms(2) js_includes_nonempty [of "toLowerCase (detected_stock_text p)" "''in stock''"]
      js_includes_nonempty [of "detected_stock_text p" "''units left''"]
    by (auto simp: toLowerCase_def)
  moreover have "normalize_stock_text (detected_stock_text p) = ''InStock''"
    using assms(2) by (simp add: normalize_stock_text_def)
  ultimately show ?thesis
    using assms(1) by (simp add: dom_availability_def Let_def)
qed

lemma dom_availability_out_of_stock:
  assumes "availability e = []"
    and "\<not> (js_includes (toLowerCase (detected_stock_text p)) ''in stock''
         \<or> js_includes (detected_stock_text p) ''units left'')"
    and "js_includes (toLowerCase (detected_stock_text p)) ''out of stock''
         \<or> js_includes (toLowerCase (detected_stock_text p)) ''sold out''"
  shows "availability (dom_availability p e) = ''OutOfStock''"
proof -
  have "detected_stock_text p \<noteq> []"
    using assms(3) js_includes_nonempty [of "toLowerCase (detected_stock_text p)" "''out of stock''"]
      js_includes_nonempty [of "toLowerCase (detected_stock_text p)" "''sold out''"]
    by (auto simp: toLowerCase_def)
  moreover have "normalize_stock_text (detected_stock_text p) = ''OutOfStock''"
    using assms(2,3) by (simp add: normalize_stock_text_def)
  ultimately show ?thesis
    using assms(1) by (simp add: dom_availability_def Let_def)
qed

lemma discontinued_override:
  assumes "js_includes (toLowerCase (name (extractor p))) ''[discontinued]''"
  shows "availability (extractor p) = ''Discontinued''"
proof -
  have n: "name (extractor p) = name (after_dom p)"
    by (simp add: extractor_def final_override_def)
  with assms have "name (after_dom p) \<noteq> []"
    using js_includes_nonempty [of "toLowerCase (name (after_dom p))" "''[discontinued]''"]
    by (auto simp: toLowerCase_def)
  with assms n show ?thesis by (simp add: extractor_def final_override_def)
qed

lemma product_record_availability:
  assumes "first_offer (js_get obj ''offers'') = Some off" and "off \<noteq> JNull"
    and "offer_availability off = JStr (pre @ ''/'' @ t)" and "CHR ''/'' \<notin> set t"
    and "product_record p obj = Inr r"
  shows "availability r = t"
  using assms(1,2,3,5) normalize_availability_segment [OF assms(4), of pre]
  by (auto simp: product_record_def Let_def split: if_splits)

lemma product_record_returns:
  assumes "first_offer (js_get obj ''offers'') = Some off" and "off \<noteq> JNull"
    and "offer_availability off = JStr s"
    and "\<not> unprintable (or_else (js_get obj ''name'') (JStr []))"
    and "\<not> unprintable (or_else (js_get obj ''sku'') (JStr []))"
  shows "\<exists>r. product_record p obj = Inr r"
  using assms by (simp add: product_record_def Let_def)

lemma offer_availability_string:
  "js_get off ''availability'' = Some (JStr s) \<Longrightarrow> s \<noteq> [] \<Longrightarrow> offer_availability off = JStr s"
  by (simp add: offer_availability_def or_else_def)

text \<open>
  C2, as the claim states it, fails: a detected text with \<^verbatim>\<open>sold out\<close> that also
  has \<^verbatim>\<open>in stock\<close> becomes \<^verbatim>\<open>InStock\<close>, because that test comes first.
\<close>

theorem sold_out_in_stock_counterexample:
  "detected_stock_text (demo_stock_page ''Sold out - back in stock soon'') = ''Sold out - back in stock soon''
   \<and> js_includes (toLowerCase ''Sold out - back in stock soon'') ''sold out''
   \<and> availability (extractor (demo_stock_page ''Sold out - back in stock soon'')) = ''InStock''"
  by code_simp


text \<open>
  C2, amended: an availability of the structured data that resolves to a string
  with a slash becomes the last segment of it, in every record that the block
  yields, and the block yields one where its name and its SKU can be converted
  to strings; where strategies 1 and 2 left the availability empty, a
  detected text whose lower-case form has \<^verbatim>\<open>in stock\<close>, or which has
  \<^verbatim>\<open>units left\<close>, gives \<^verbatim>\<open>InStock\<close>, and any other detected text whose lower-case
  form has \<^verbatim>\<open>out of stock\<close> or \<^verbatim>\<open>sold out\<close> gives \<^verbatim>\<open>OutOfStock\<close>; a final name
  whose lower-case form has \<^verbatim>\<open>[discontinued]\<close> makes the availability
  \<^verbatim>\<open>Discontinued\<close>.
\<close>

theorem availability_normalized:
  "(first_offer (js_get obj ''offers'') = Some off \<and> off \<noteq> JNull
      \<and> offer_availability off = JStr (pre @ ''/'' @ t) \<and> CHR ''/'' \<notin> set t
      \<longrightarrow> (\<forall>r. product_record p obj = Inr r \<longrightarrow> availability r = t))
   \<and> (first_offer (js_get obj ''offers'') = Some off \<and> off \<noteq> JNull
      \<and> offer_availability off = JStr (pre @ ''/'' @ t) \<and> CHR ''/'' \<notin> set t
      \<and> \<not> unprintable (or_else (js_get obj ''name'') (JStr []))
      \<and> \<not> unprintable (or_else (js_get obj ''sku'') (JStr []))
      \<longrightarrow> (\<exists>r. product_record p obj = Inr r \<and> availability r = t))
   \<and> (availability (after_platform_metadata p) = []
        \<and> (js_includes (toLowerCase (detected_stock_text p)) ''in stock''
             \<or> js_includes (detected_stock_text p) ''units left'')
      \<longrightarrow> availability (after_dom p) = ''InStock'')
   \<and> (availability (after_platform_metadata p) = []
        \<and> \<not> (js_includes (toLowerCase (detected_stock_text p)) ''in stock''
             \<or> js_includes (detected_stock_text p) ''units left'')
        \<and> (js_includes (toLowerCase (detected_stock_text p)) ''out of stock''
             \<or> js_includes (toLowerCase (detected_stock_text p)) ''sold out'')
      \<longrightarrow> availability (after_dom p) = ''OutOfStock'')
   \<and> (js_includes (toLowerCase (name (extractor p))) ''[discontinued]''
      \<longrightarrow> availability (extractor p) = ''Discontinued'')"
proof (intro conjI impI allI)
  fix r
  assume "first_offer (js_get obj ''offers'') = Some off \<and> off \<noteq> JNull
      \<and> offer_availability off = JStr (pre @ ''/'' @ t) \<and> CHR ''/'' \<notin> set t"
    and "product_record p obj = Inr r"
  then show "availability r = t"
    using product_record_availability by blast
next
  assume a: "first_offer (js_get obj ''offers'') = Some off \<and> off \<noteq> JNull
      \<and> offer_availability off = JStr (pre @ ''/'' @ t) \<and> CHR ''/'' \<notin> set t
      \<and> \<not> unprintable (or_else (js_get obj ''name'') (JStr []))
      \<and> \<not> unprintable (or_else (js_get obj ''sku'') (JStr []))"
  then obtain r where r: "product_record p obj = Inr r"
    using product_record_returns [of obj off "pre @ ''/'' @ t" p] by blast
  with a have "availability r = t"
    using product_record_availability [of obj off pre t p r] by blast
  with r show "\<exists>r. product_record p obj = Inr r \<and> availability r = t" by blast
next
  assume "availability (after_platform_metadata p) = []
        \<and> (js_includes (toLowerCase (detected_stock_text p)) ''in stock''
             \<or> js_includes (detected_stock_text p) ''units left'')"
  then show "availability (after_dom p) = ''InStock''"
    using dom_availability_in_stock [of "after_platform_metadata p" p]
    by (simp add: availability_after_dom)
next
  assume "availability (after_platform_metadata p) = []
        \<and> \<not> (js_includes (toLowerCase (detected_stock_text p)) ''in stock''
             \<or> js_includes (detected_stock_text p) ''units left'')
        \<and> (js_includes (toLowerCase (detected_stock_text p)) ''out of stock''
             \<or> js_includes (toLowerCase (detected_stock_text p)) ''sold out'')"
  then show "availability (after_dom p) = ''OutOfStock''"
    using dom_availability_out_of_stock [of "after_platform_metadata p" p]
    by (simp add: availability_after_dom)
next
  assume "js_includes (toLowerCase (name (extractor p))) ''[discontinued]''"
  then show "availability (extractor p) = ''Discontinued''"
    by (rule discontinued_override)
qed

theorem availability_normalized_witness:
  "(\<exists>r. product_record demo_dom_page demo_product = Inr r \<and> availability r = ''InStock'')
   \<and> availability (after_dom (demo_stock_page ''Currently Out of Stock'')) = ''OutOfStock''
   \<and> availability (after_dom (demo_stock_page ''Only 3 units left'')) = ''InStock''
   \<and> name (extractor demo_dom_page) = ''Widget [Discontinued]''
   \<and> availability (extractor demo_dom_page) = ''Discontinued''"
proof -
  have "js_get demo_offer ''availability'' = Some (JStr ''https://schema.org/InStock'')"
    by (simp add: demo_offer_def)
  then have "offer_availability demo_offer = JStr ''https://schema.org/InStock''"
    by (rule offer_availability_string) simp
  then have a: "first_offer (js_get demo_product ''offers'') = Some demo_offer \<and> demo_offer \<noteq> JNull
      \<and> offer_availability demo_offer = JStr (''https://schema.org'' @ ''/'' @ ''InStock'')
      \<and> CHR ''/'' \<notin> set ''InStock''
      \<and> \<not> unprintable (or_else (js_get demo_product ''name'') (JStr []))
      \<and> \<not> unprintable (or_else (js_get demo_product ''sku'') (JStr []))"
    by (simp add: demo_product_def demo_offer_def or_else_def)
  have 1: "\<exists>r. product_record demo_dom_page demo_product = Inr r \<and> availability r = ''InStock''"
    using a availability_normalized [of demo_product demo_offer "''https://schema.org''" "''InStock''"
        demo_dom_page]
    by blast
  have b: "availability (after_platform_metadata (demo_stock_page ''Currently Out of Stock'')) = []
        \<and> \<not> (js_includes (toLowerCase (detected_stock_text (demo_stock_page ''Currently Out of Stock''))) ''in stock''
             \<or> js_includes (detected_stock_text (demo_stock_page ''Currently Out of Stock'')) ''units left'')
        \<and> (js_includes (toLowerCase (detected_stock_text (demo_stock_page ''Currently Out of Stock''))) ''out of stock''
             \<or> js_includes (toLowerCase (detected_stock_text (demo_stock_page ''Currently Out of Stock''))) ''sold out'')"
    by code_simp
  have 2: "availability (after_dom (demo_stock_page ''Currently Out of Stock'')) = ''OutOfStock''"
    using b availability_normalized [of _ _ _ _ "demo_stock_page ''Currently Out of Stock''"]
    by blast
  have c: "availability (after_platform_metadata (demo_stock_page ''Only 3 units left'')) = []
        \<and> (js_includes (toLowerCase (detected_stock_text (demo_stock_page ''Only 3 units left''))) ''in stock''
             \<or> js_includes (detected_stock_text (demo_stock_page ''Only 3 units left'')) ''units left'')"
    by code_simp
  have 3: "availability (after_dom (demo_stock_page ''Only 3 units left'')) = ''InStock''"
    using c availability_normalized [of _ _ _ _ "demo_stock_page ''Only 3 units left''"]
    by blast
  have d: "name (extractor demo_dom_page) = ''Widget [Discontinued]''"
    by code_simp
  have "js_includes (toLowerCase ''Widget [Discontinued]'') ''[discontinued]''"
    by code_simp
  then have "js_includes (toLowerCase (name (extractor demo_dom_page))) ''[discontinued]''"
    by (simp only: d)
  then have 4: "availability (extractor demo_dom_page) = ''Discontinued''"
    using availability_normalized [of _ _ _ _ demo_dom_page] by blast
  show ?thesis using 1 2 3 d 4 by (intro conjI)
qed


subsection \<open>Platform metadata\<close>

lemma platform_metadata_name_kept:
  "platform_metadata p (Some r) = Some r' \<Longrightarrow> name r' = name r"
  by (auto simp: platform_metadata_def Let_def split: option.splits list.splits if_splits)

lemma platform_metadata_name_derived:
  assumes "shopify_meta p = Some sp" and "sp_variants sp = v # vs"
  shows "\<exists>r'. platform_metadata p None = Some r'
            \<and> name r' = decodeHtml p (JStr (fallback_name p sp v))"
  using assms by (simp add: platform_metadata_def Let_def str_or_def)

text \<open>
  C4: on a page whose structured data gave a record with an empty name and no
  SKU, the platform metadata fills SKU and price and leaves the name empty,
  although the first variant has a name.
\<close>

theorem platform_name_not_filled:
  "after_structured_data demo_meta_page
     = Some \<lparr>name = [], sku = [], price = JStr [], availability = []\<rparr>
   \<and> after_platform_metadata demo_meta_page
     = \<lparr>name = [], sku = ''W1'', price = JStr ''19.99'', availability = []\<rparr>
   \<and> extractor demo_meta_page
     = \<lparr>name = [], sku = ''W1'', price = JStr ''19.99'', availability = []\<rparr>"
  by code_simp

lemma digits_small: "m < 10 \<Longrightarrow> digits m = [digit_char m]"
  by (subst digits.simps) simp

lemma digits_step: "10 \<le> m \<Longrightarrow> digits m = digits (m div 10) @ [digit_char (m mod 10)]"
  by (subst digits.simps) simp

lemma digits_two: "10 \<le> m \<Longrightarrow> m < 100 \<Longrightarrow> digits m = [digit_char (m div 10), digit_char (m mod 10)]"
  by (simp add: digits_step digits_small)

lemma digits_hundreds:
  assumes "100 \<le> m"
  shows "digits m = digits (m div 100) @ [digit_char (m div 10 mod 10), digit_char (m mod 10)]"
proof -
  have a: "10 \<le> m" and b: "10 \<le> m div 10" using assms by simp_all
  have c: "m div 10 div 10 = m div 100" by simp
  have "digits m = digits (m div 10) @ [digit_char (m mod 10)]"
    using a by (rule digits_step)
  also have "digits (m div 10) = digits (m div 10 div 10) @ [digit_char (m div 10 mod 10)]"
    using b by (rule digits_step)
  finally show ?thesis unfolding c by simp
qed

lemma digits_not_empty: "digits m \<noteq> []"
  by (subst digits.simps) simp

lemma digit_char_0: "digit_char 0 = CHR ''0''"
  by (simp add: digit_char_def)

lemma round_half_even_near:
  "\<bar>100 * round_half_even p 100 - p\<bar> \<le> 50"
proof -
  define d where "d = p div 100"
  define r where "r = p mod 100"
  have p: "p = 100 * d + r" and r: "0 \<le> r" "r < 100"
    by (simp_all add: d_def r_def)
  have m: "round_half_even p 100
      = (if 2 * r < 100 then d else if 100 < 2 * r then d + 1 else if even d then d else d + 1)"
    by (simp add: round_half_even_def Let_def d_def r_def)
  show ?thesis
    unfolding m using p r by (simp split: if_splits)
qed

lemma binary_exponent_reached:
  assumes "1 \<le> a"
  shows "100 * 2 ^ 52 \<le> a * 2 ^ binary_exponent a"
proof -
  let ?P = "\<lambda>k::nat. a * 2 ^ k < 100 * 2 ^ 52"
  have "\<not> ?P 59" using assms by simp
  moreover have "(59::nat) \<in> set [0..<60]" by simp
  ultimately have "takeWhile ?P [0..<60] \<noteq> [0..<60]"
    by (metis (mono_tags, lifting) takeWhile_eq_all_conv)
  then have l: "length (takeWhile ?P [0..<60]) < length [0..<60]"
    by (metis length_takeWhile_le le_neq_implies_less takeWhile_eq_take take_all order_refl)
  from nth_length_takeWhile [OF l]
  have "\<not> ?P ([0..<60] ! length (takeWhile ?P [0..<60]))" .
  moreover have "[0..<60] ! length (takeWhile ?P [0..<60]) = length (takeWhile ?P [0..<60])"
    using l by (simp del: upt_Suc)
  ultimately show ?thesis by (simp add: binary_exponent_def del: upt_Suc)
qed

text \<open>
  Below \<open>2^52\<close> the rounding of the quotient is too small to reach the next
  hundredth: \<^verbatim>\<open>toFixed\<close> finds the integer it started from.
\<close>

lemma nearest_hundredfold_exact:
  assumes "1 \<le> a" and "a < 2 ^ 52"
  shows "nearest_hundredfold (hundredth a) = a"
proof -
  define k where "k = binary_exponent a"
  define m where "m = round_half_even (a * 2 ^ k) 100"
  have low: "100 * 2 ^ 52 \<le> a * (2::int) ^ k"
    unfolding k_def using assms(1) by (rule binary_exponent_reached)
  have "a * (2::int) ^ k < 2 ^ 52 * 2 ^ k"
    using assms(2) by simp
  with low have "100 * (2::int) ^ 52 < 2 ^ 52 * 2 ^ k" by linarith
  then have big: "(100::int) < 2 ^ k" by simp
  have near: "\<bar>100 * m - a * 2 ^ k\<bar> \<le> 50"
    unfolding m_def by (rule round_half_even_near)
  have "(200 * m + 2 ^ k) div (2 * 2 ^ k) = a"
  proof (rule int_div_pos_eq)
    show "200 * m + 2 ^ k = (2 * 2 ^ k) * a + (200 * m + 2 ^ k - 2 * 2 ^ k * a)" by simp
    show "0 \<le> 200 * m + 2 ^ k - 2 * 2 ^ k * a"
      using near big by (simp add: abs_le_iff algebra_simps)
    show "200 * m + 2 ^ k - 2 * 2 ^ k * a < 2 * 2 ^ k"
      using near big by (simp add: abs_le_iff algebra_simps)
  qed
  then show ?thesis
    by (simp add: nearest_hundredfold_def hundredth_def Let_def k_def m_def)
qed

lemma toFixed2_two_decimals:
  assumes "n \<noteq> 0" and "\<bar>n\<bar> < 2 ^ 52"
  shows "toFixed2_hundredths n = two_decimals n"
proof -
  let ?m = "\<bar>n\<bar>"
  have e: "nearest_hundredfold (hundredth ?m) = ?m"
    using assms by (intro nearest_hundredfold_exact) simp_all
  consider "?m < 10" | "10 \<le> ?m" "?m < 100" | "100 \<le> ?m" by linarith
  then show ?thesis
  proof cases
    case 1
    then have "?m div 100 = 0" "?m div 10 mod 10 = 0" "?m mod 10 = ?m" by simp_all
    with 1 show ?thesis
      by (simp add: toFixed2_hundredths_def e two_decimals_def Let_def digits_small digit_char_0)
  next
    case 2
    then have "?m div 100 = 0" "?m div 10 mod 10 = ?m div 10" by simp_all
    with 2 show ?thesis
      by (simp add: toFixed2_hundredths_def e two_decimals_def Let_def digits_two digits_small digit_char_0)
  next
    case 3
    have l: "length (digits (?m div 100)) \<ge> 1"
      using digits_not_empty [of "?m div 100"] by (cases "digits (?m div 100)") auto
    show ?thesis
      using l digits_not_empty [of "?m div 100"]
      by (simp add: toFixed2_hundredths_def e two_decimals_def Let_def digits_hundreds [OF 3])
  qed
qed

text \<open>
  C8, as the claim states it, fails: a variant whose price is given as 0 yields
  the empty string, not \<^verbatim>\<open>0.00\<close>; and the quotient is a floating-point number,
  so that the price 7036874417766401 (below \<open>2^53\<close>, above \<open>2^52\<close>) yields the
  hundredths \<^verbatim>\<open>.02\<close> where the integer divided by 100 has \<^verbatim>\<open>.01\<close>.
\<close>

theorem zero_price_counterexample:
  "after_platform_metadata demo_free_page
     = \<lparr>name = ''Widget - Red'', sku = ''W1'', price = JStr [], availability = []\<rparr>
   \<and> after_platform_metadata demo_big_page
     = \<lparr>name = ''Widget - Red'', sku = ''W1'', price = JStr ''70368744177664.02'',
        availability = []\<rparr>
   \<and> two_decimals 7036874417766401 = ''70368744177664.01''"
  by code_simp

text \<open>
  C8, amended: where the platform metadata applies and the price is still empty,
  a variant price \<open>n\<close> in minor units that is not zero and below \<open>2^52\<close> in
  absolute value yields \<open>n / 100\<close> with exactly two decimal places; a price of
  zero yields the empty string.
\<close>

theorem variant_price_two_decimals:
  assumes "shopify_meta p = Some sp" and "sp_variants sp = v # vs" and "v_price v = Some n"
    and "\<bar>n\<bar> < 2 ^ 52"
    and "case ex of None \<Rightarrow> True | Some e \<Rightarrow> sku e = [] \<and> \<not> truthy (price e)"
  shows "\<exists>e'. platform_metadata p ex = Some e'
            \<and> price e' = JStr (if n = 0 then [] else two_decimals n)"
proof (cases ex)
  case None
  with assms show ?thesis
    by (simp add: platform_metadata_def variant_price_def Let_def toFixed2_two_decimals)
next
  case (Some e)
  with assms show ?thesis
    by (simp add: platform_metadata_def variant_price_def Let_def toFixed2_two_decimals)
qed

lemma demo_meta_facts:
  "shopify_meta demo_meta_page = Some \<lparr>sp_type = ''Widgets'', sp_handle = ''widget-red'',
                             sp_variants = [\<lparr>v_name = ''Widget - Red'', v_sku = ''W1'',
                                             v_price = Some 1999\<rparr>]\<rparr>"
  by (simp add: demo_meta_page_def)

lemma two_decimals_1999: "two_decimals 1999 = ''19.99''"
  by code_simp

theorem variant_price_two_decimals_witness:
  "(\<exists>e'. platform_metadata demo_meta_page
             (Some \<lparr>name = [], sku = [], price = JStr [], availability = []\<rparr>) = Some e'
         \<and> price e' = JStr ''19.99'')
   \<and> two_decimals 1999 = ''19.99''"
proof -
  have "\<exists>e'. platform_metadata demo_meta_page
             (Some \<lparr>name = [], sku = [], price = JStr [], availability = []\<rparr>) = Some e'
         \<and> price e' = JStr (if (1999::int) = 0 then [] else two_decimals 1999)"
    using variant_price_two_decimals [OF demo_meta_facts,
        of "\<lparr>v_name = ''Widget - Red'', v_sku = ''W1'', v_price = Some 1999\<rparr>" "[]" 1999
           "Some \<lparr>name = [], sku = [], price = JStr [], availability = []\<rparr>"]
    by simp
  then show ?thesis by (simp add: two_decimals_1999)
qed

end
